theory Spec2Isabelle
  imports Complex_Main "HOL-Library.Word"
begin

unbundle bit_operations_syntax

section \<open>The session object and its collaborators\<close>

text \<open>
  The development embeds \<^verbatim>\<open>pygds_lib.py\<close>: the class \<^verbatim>\<open>PYGDS\<close>, which drives the CUDA
  driver API, the cuFile library and the OS file layer. None of the three is code of
  the repository. Every call into them is recorded as an \<open>event\<close>, in program order,
  and what a call hands back to Python is read from an environment record \<open>env\<close>, so
  that every theorem holds for whatever the collaborators answer.
\<close>

subsection \<open>ctypes structures\<close>

record CUfileError =
  err :: int
  cu_err :: int

record CUfileDescr =
  descr_type :: int
  handle_fd :: int

subsection \<open>Exceptions\<close>

text \<open>
  Every \<^verbatim>\<open>raise\<close> of the source is a \<^verbatim>\<open>RuntimeError\<close> that differs from the others by
  its message only; each raise site gets a constructor carrying what the message
  interpolates. The last three are raised by Python itself: \<open>OSError\<close> by \<^verbatim>\<open>os.open\<close> and
  \<^verbatim>\<open>ctypes.CDLL\<close>, \<open>TypeError\<close> by \<^verbatim>\<open>int(None)\<close> and \<^verbatim>\<open>from_address(None)\<close>,
  \<open>ZeroDivisionError\<close> by \<^verbatim>\<open>n / dt\<close> when both clock readings agree.
\<close>

datatype error =
    CudaCheckFailed string int
  | CuFileCheckFailed string int int
  | WriteReturned int
  | ReadReturned int
  | VerificationFailed
  | OSError
  | TypeError
  | ZeroDivisionError

subsection \<open>Output lines\<close>

datatype report =
    WriteReport real real real
  | ReadReport real real real
  | VerificationPassed int

subsection \<open>Calls that leave the program\<close>

text \<open>
  Handles (device pointers, the context, the host pointer, the opaque cuFile handle)
  are addresses, a \<open>nat\<close>; a Python name bound to \<^verbatim>\<open>None\<close> is \<open>None\<close>. The calls whose
  answer decides what the program does next carry that answer as their last argument:
  the status of a registration, the byte count of a transfer.
\<close>

datatype event =
    CuInit int
  | CuDeviceGet int
  | CuCtxCreate int "int option"
  | CDLL string
  | CuFileDriverOpen CUfileError
  | CuMemAlloc nat
  | CuMemsetD8 "nat option" int nat
  | CuFileBufRegister nat nat int CUfileError
  | OsOpen string int int
  | CuFileHandleRegister CUfileDescr nat CUfileError
  | CuFileWrite "nat option" nat nat int int int
  | CuFileRead "nat option" nat nat int int int
  | CuMemAllocHost nat
  | CuMemcpyDtoH "nat option" "nat option" nat
  | CuFileHandleDeregister nat
  | OsClose int
  | CuFileBufDeregister nat
  | CuMemFree nat
  | CuMemFreeHost nat
  | CuCtxDestroy nat
  | CuFileDriverClose
  | Print report

subsection \<open>The session\<close>

text \<open>
  The attributes of a \<^verbatim>\<open>PYGDS\<close> object. \<^verbatim>\<open>buffer_size\<close> is a byte count handed to C
  \<^verbatim>\<open>size_t\<close> parameters and to the length of a ctypes array, a \<open>nat\<close>. The attribute
  \<^verbatim>\<open>libcufile\<close> is bound once by the constructor and never rebound; a session exists
  only when the constructor returned, so it is not a field here.
\<close>

record PYGDS =
  buffer_size :: nat
  pattern_byte :: int
  device :: "int option"
  ctx :: "nat option"
  dptr_w :: "nat option"
  dptr_r :: "nat option"
  hptr :: "nat option"
  cf_handle :: "nat option"
  fd :: "int option"

subsection \<open>What the collaborators answer\<close>

text \<open>
  One field per call whose answer the program reads. \<open>os_open_res = None\<close> and
  \<open>cdll_loads = False\<close> stand for the call raising \<open>OSError\<close>. The transfer counts are
  the Python integers the foreign calls return. \<open>host_mem\<close> is the content of host
  memory after \<^verbatim>\<open>cuMemcpyDtoH\<close> returned.

  \<open>memsetD8_accepts\<close> is the answer of the CUDA binding to the second argument of the
  fill at \<^verbatim>\<open>setup_buffers\<close>, a \<^verbatim>\<open>ctypes.c_ubyte\<close> object. The cuda-python binding declares
  that parameter as a C \<^verbatim>\<open>unsigned char\<close>, to which a ctypes object does not convert: the
  call raises \<open>TypeError\<close> before anything reaches the driver, and the field is
  \<open>False\<close>. It is \<open>True\<close> only for a binding that takes the object.
\<close>

record env =
  cuInit_res :: int
  cuDeviceGet_res :: "int option"
  cuCtxCreate_res :: "nat option"
  cdll_loads :: bool
  driverOpen_res :: CUfileError
  memAlloc_w :: "nat option"
  memAlloc_r :: "nat option"
  memsetD8_accepts :: bool
  bufRegister_w :: CUfileError
  bufRegister_r :: CUfileError
  os_open_res :: "int option"
  handleRegister_out :: nat
  handleRegister_res :: CUfileError
  write_clock :: "real \<times> real"
  write_n :: int
  read_clock :: "real \<times> real"
  read_n :: int
  memAllocHost_res :: "nat option"
  memcpy_res :: int
  host_mem :: "nat \<Rightarrow> 8 word"

text \<open>The constants of the \<^verbatim>\<open>os\<close> module that \<^verbatim>\<open>open_file\<close> combines; their values are the
  platform's.\<close>

record os_consts =
  O_CREAT :: int
  O_RDWR :: int
  O_TRUNC :: int
  O_DIRECT :: int

subsection \<open>Outcomes\<close>

text \<open>
  A method returns its value or the exception it raised, the session as it left it
  (also when it raised), and the calls it made.
\<close>

type_synonym 'a outcome = "(error + 'a) \<times> PYGDS \<times> event list"

definition res_of :: "'a outcome \<Rightarrow> error + 'a" where
  "res_of m = fst m"

definition sess_of :: "'a outcome \<Rightarrow> PYGDS" where
  "sess_of m = fst (snd m)"

definition calls_of :: "'a outcome \<Rightarrow> event list" where
  "calls_of m = snd (snd m)"

text \<open>Statement after statement: the second runs only if the first did not raise.\<close>

definition and_then :: "'a outcome \<Rightarrow> ('a \<Rightarrow> PYGDS \<Rightarrow> 'b outcome) \<Rightarrow> 'b outcome" where
  "and_then m f =
     (case m of
        (Inl ex, s, t) \<Rightarrow> (Inl ex, s, t)
      | (Inr v, s, t) \<Rightarrow> (case f v s of (r, s', t') \<Rightarrow> (r, s', t @ t')))"

text \<open>
  Modelled from the spec: the truth value of a handle object of the CUDA and ctypes
  bindings, which are not part of the repository. The spec's design notes say that
  the source treats a null (zero) pointer as not acquired; \<^verbatim>\<open>None\<close> is false in Python.
\<close>

definition truthy :: "nat option \<Rightarrow> bool" where
  "truthy v = (case v of None \<Rightarrow> False | Some p \<Rightarrow> p \<noteq> 0)"

definition if_truthy :: "nat option \<Rightarrow> (nat \<Rightarrow> event list) \<Rightarrow> event list" where
  "if_truthy v f = (case v of None \<Rightarrow> [] | Some p \<Rightarrow> if p \<noteq> 0 then f p else [])"

section \<open>The methods\<close>

definition check_cuda :: "int \<Rightarrow> string \<Rightarrow> error + unit" where
  "check_cuda e msg = (if e \<noteq> 0 then Inl (CudaCheckFailed msg e) else Inr ())"

definition check_cufile :: "CUfileError \<Rightarrow> string \<Rightarrow> error + unit" where
  "check_cufile status name =
     (if err status \<noteq> 0 then Inl (CuFileCheckFailed name (err status) (cu_err status))
      else Inr ())"

definition initialize_cuda :: "env \<Rightarrow> PYGDS \<Rightarrow> unit outcome" where
  "initialize_cuda e s =
     (case check_cuda (cuInit_res e) ''cuInit failed'' of
        Inl ex \<Rightarrow> (Inl ex, s, [CuInit 0])
      | Inr _ \<Rightarrow>
          (let s1 = s\<lparr>device := cuDeviceGet_res e\<rparr>;
               s2 = s1\<lparr>ctx := cuCtxCreate_res e\<rparr>
           in (Inr (), s2, [CuInit 0, CuDeviceGet 0, CuCtxCreate 0 (device s1)])))"

definition initialize_cufile :: "env \<Rightarrow> PYGDS \<Rightarrow> unit outcome" where
  "initialize_cufile e s =
     (if \<not> cdll_loads e then (Inl OSError, s, [CDLL ''libcufile.so''])
      else
        (case check_cufile (driverOpen_res e) ''cuFileDriverOpen'' of
           Inl ex \<Rightarrow> (Inl ex, s, [CDLL ''libcufile.so'', CuFileDriverOpen (driverOpen_res e)])
         | Inr _ \<Rightarrow> (Inr (), s, [CDLL ''libcufile.so'', CuFileDriverOpen (driverOpen_res e)])))"

text \<open>
  \<^verbatim>\<open>__init__\<close>: the two size attributes, the CUDA context, the cuFile driver, and then
  the seven assignments of \<^verbatim>\<open>None\<close>, in the order of the source. The constructor hands
  back an object only when nothing raised.
\<close>

definition PYGDS_init :: "env \<Rightarrow> nat \<Rightarrow> int \<Rightarrow> (error + PYGDS) \<times> event list" where
  "PYGDS_init e bs pb =
     (let s0 = \<lparr>buffer_size = bs, pattern_byte = pb, device = None, ctx = None,
                dptr_w = None, dptr_r = None, hptr = None, cf_handle = None, fd = None\<rparr>
      in case and_then (initialize_cuda e s0) (\<lambda>_ s. initialize_cufile e s) of
           (Inl ex, s, t) \<Rightarrow> (Inl ex, t)
         | (Inr _, s, t) \<Rightarrow>
             (Inr (s\<lparr>device := None, ctx := None, dptr_w := None, dptr_r := None,
                     hptr := None, cf_handle := None, fd := None\<rparr>), t))"

text \<open>The defaults of the constructor: \<^verbatim>\<open>buffer_size=4*1024, pattern_byte=0xAB\<close>.\<close>

definition PYGDS_default :: "env \<Rightarrow> (error + PYGDS) \<times> event list" where
  "PYGDS_default e = PYGDS_init e (4 * 1024) 0xAB"

text \<open>
  The loop of \<^verbatim>\<open>setup_buffers\<close> over the two device pointers, each with the status its
  registration returns: \<^verbatim>\<open>int(ptr)\<close> raises on \<^verbatim>\<open>None\<close>, a non-zero status raises, and
  the loop stops at the first exception. The loop is reached only when the fill before
  it did not raise.
\<close>

fun register_each :: "nat \<Rightarrow> (nat option \<times> CUfileError) list \<Rightarrow> (error + unit) \<times> event list" where
  "register_each sz [] = (Inr (), [])"
| "register_each sz ((ptr, st) # rest) =
     (case ptr of
        None \<Rightarrow> (Inl TypeError, [])
      | Some p \<Rightarrow>
          (case check_cufile st ''cuFileBufRegister'' of
             Inl ex \<Rightarrow> (Inl ex, [CuFileBufRegister p sz 0 st])
           | Inr _ \<Rightarrow>
               (case register_each sz rest of
                  (r, t) \<Rightarrow> (r, CuFileBufRegister p sz 0 st # t))))"

definition setup_buffers :: "env \<Rightarrow> PYGDS \<Rightarrow> unit outcome" where
  "setup_buffers e s =
     (let s1 = s\<lparr>dptr_w := memAlloc_w e\<rparr>;
          s2 = s1\<lparr>dptr_r := memAlloc_r e\<rparr>;
          t = [CuMemAlloc (buffer_size s), CuMemAlloc (buffer_size s1)]
      in if \<not> memsetD8_accepts e then (Inl TypeError, s2, t)
         else
           (case register_each (buffer_size s2)
                   [(dptr_w s2, bufRegister_w e), (dptr_r s2, bufRegister_r e)] of
              (r, t') \<Rightarrow>
                (r, s2,
                 t @ [CuMemsetD8 (dptr_w s2) (pattern_byte s2 mod 256) (buffer_size s2)] @ t')))"

definition default_flags :: "os_consts \<Rightarrow> int" where
  "default_flags c = O_CREAT c OR O_RDWR c OR O_TRUNC c OR O_DIRECT c"

definition default_mode :: int where
  "default_mode = 420"

definition open_file :: "env \<Rightarrow> PYGDS \<Rightarrow> string \<Rightarrow> int \<Rightarrow> int \<Rightarrow> unit outcome" where
  "open_file e s filepath flags mode =
     (case os_open_res e of
        None \<Rightarrow> (Inl OSError, s, [OsOpen filepath flags mode])
      | Some f \<Rightarrow>
          (let s1 = s\<lparr>fd := Some f\<rparr>;
               descr = \<lparr>descr_type = 1, handle_fd = f\<rparr>;
               s2 = s1\<lparr>cf_handle := Some 0\<rparr>;
               s3 = s2\<lparr>cf_handle := Some (handleRegister_out e)\<rparr>;
               t = [OsOpen filepath flags mode,
                    CuFileHandleRegister descr (handleRegister_out e) (handleRegister_res e)]
           in case check_cufile (handleRegister_res e) ''cuFileHandleRegister'' of
                Inl ex \<Rightarrow> (Inl ex, s3, t)
              | Inr _ \<Rightarrow> (Inr (), s3, t)))"

definition open_file_default :: "env \<Rightarrow> os_consts \<Rightarrow> PYGDS \<Rightarrow> string \<Rightarrow> unit outcome" where
  "open_file_default e c s filepath = open_file e s filepath (default_flags c) default_mode"

definition write_buffer :: "env \<Rightarrow> PYGDS \<Rightarrow> int \<Rightarrow> int \<Rightarrow> (real \<times> real \<times> real) outcome" where
  "write_buffer e s file_offset device_offset =
     (case dptr_w s of
        None \<Rightarrow> (Inl TypeError, s, [])
      | Some p \<Rightarrow>
          (let t0 = fst (write_clock e);
               n = write_n e;
               call = CuFileWrite (cf_handle s) p (buffer_size s) file_offset device_offset n;
               dt = snd (write_clock e) - t0
           in if n \<noteq> int (buffer_size s) then (Inl (WriteReturned n), s, [call])
              else if dt = 0 then (Inl ZeroDivisionError, s, [call])
              else (Inr (real_of_int n / 1000000, dt * 1000,
                         (real_of_int n / dt) / 1000000000), s, [call])))"

definition read_buffer :: "env \<Rightarrow> PYGDS \<Rightarrow> int \<Rightarrow> int \<Rightarrow> (real \<times> real \<times> real) outcome" where
  "read_buffer e s file_offset device_offset =
     (case dptr_r s of
        None \<Rightarrow> (Inl TypeError, s, [])
      | Some p \<Rightarrow>
          (let t0 = fst (read_clock e);
               n = read_n e;
               call = CuFileRead (cf_handle s) p (buffer_size s) file_offset device_offset n;
               dt = snd (read_clock e) - t0
           in if n \<noteq> int (buffer_size s) then (Inl (ReadReturned n), s, [call])
              else if dt = 0 then (Inl ZeroDivisionError, s, [call])
              else (Inr (real_of_int n / 1000000, dt * 1000,
                         (real_of_int n / dt) / 1000000000), s, [call])))"

text \<open>
  \<^verbatim>\<open>verify_buffer\<close>: the host buffer is the \<^verbatim>\<open>buffer_size\<close> bytes of host memory from
  \<^verbatim>\<open>hptr\<close> on; \<^verbatim>\<open>any(b != self.pattern_byte for b in host_buf)\<close> compares each byte, an
  integer from 0 to 255, with the attribute, an unbounded integer. The bytes are read
  from \<open>host_mem\<close> at whatever address \<^verbatim>\<open>cuMemAllocHost\<close> returned.
\<close>

definition host_buf :: "env \<Rightarrow> nat \<Rightarrow> nat \<Rightarrow> 8 word list" where
  "host_buf e h sz = map (host_mem e) [h ..< h + sz]"

definition verify_buffer :: "env \<Rightarrow> PYGDS \<Rightarrow> bool outcome" where
  "verify_buffer e s =
     (let s1 = s\<lparr>hptr := memAllocHost_res e\<rparr>;
          t = [CuMemAllocHost (buffer_size s),
               CuMemcpyDtoH (hptr s1) (dptr_r s1) (buffer_size s1)]
      in case check_cuda (memcpy_res e) ''cuMemcpyDtoH'' of
           Inl ex \<Rightarrow> (Inl ex, s1, t)
         | Inr _ \<Rightarrow>
             (case hptr s1 of
                None \<Rightarrow> (Inl TypeError, s1, t)
              | Some h \<Rightarrow>
                  if list_ex (\<lambda>b. uint b \<noteq> pattern_byte s1) (host_buf e h (buffer_size s1))
                  then (Inl VerificationFailed, s1, t)
                  else (Inr True, s1, t)))"

text \<open>
  \<^verbatim>\<open>cleanup\<close>: seven guarded releases and the unguarded driver close. The foreign calls
  return their status, which \<^verbatim>\<open>cleanup\<close> discards. \<^verbatim>\<open>os.close\<close> is taken to return
  normally, as it does on a descriptor that is open; \<open>cleanup_when\<close> below is the same
  method when it does not. No attribute is assigned.
\<close>

definition cleanup :: "PYGDS \<Rightarrow> unit outcome" where
  "cleanup s =
     (Inr (), s,
      if_truthy (cf_handle s) (\<lambda>h. [CuFileHandleDeregister h])
      @ (case fd s of None \<Rightarrow> [] | Some f \<Rightarrow> [OsClose f])
      @ if_truthy (dptr_w s) (\<lambda>p. [CuFileBufDeregister p, CuMemFree p])
      @ if_truthy (dptr_r s) (\<lambda>p. [CuFileBufDeregister p, CuMemFree p])
      @ if_truthy (hptr s) (\<lambda>p. [CuMemFreeHost p])
      @ if_truthy (ctx s) (\<lambda>c. [CuCtxDestroy c])
      @ [CuFileDriverClose])"

text \<open>The body of the \<^verbatim>\<open>try\<close> block of \<^verbatim>\<open>run_demo\<close>.\<close>

definition demo_body :: "env \<Rightarrow> os_consts \<Rightarrow> PYGDS \<Rightarrow> string \<Rightarrow> unit outcome" where
  "demo_body e c s filepath =
     and_then (setup_buffers e s) (\<lambda>_ s1.
     and_then (open_file_default e c s1 filepath) (\<lambda>_ s2.
     and_then (write_buffer e s2 0 0) (\<lambda>w s3.
     and_then (Inr (), s3, [Print (case w of (mb, ms, bw) \<Rightarrow> WriteReport mb ms bw)]) (\<lambda>_ s4.
     and_then (read_buffer e s4 0 0) (\<lambda>r s5.
     and_then (Inr (), s5, [Print (case r of (mb, ms, bw) \<Rightarrow> ReadReport mb ms bw)]) (\<lambda>_ s6.
     and_then (verify_buffer e s6) (\<lambda>ok s7.
       if ok then (Inr (), s7, [Print (VerificationPassed (pattern_byte s7))])
       else (Inr (), s7, []))))))))"

text \<open>
  \<^verbatim>\<open>try: ... finally: self.cleanup()\<close>: the cleanup runs however the body ended, and the
  body's exception, if any, propagates afterwards.
\<close>

definition run_demo :: "env \<Rightarrow> os_consts \<Rightarrow> PYGDS \<Rightarrow> string \<Rightarrow> unit outcome" where
  "run_demo e c s filepath =
     (case demo_body e c s filepath of
        (r, s', t) \<Rightarrow>
          (case cleanup s' of
             (Inl ex, s'', t') \<Rightarrow> (Inl ex, s'', t @ t')
           | (Inr _, s'', t') \<Rightarrow> (r, s'', t @ t')))"

text \<open>
  \<^verbatim>\<open>cleanup\<close> once more, with the answer of \<^verbatim>\<open>os.close\<close> made explicit: \<open>True\<close> when it
  returns, \<open>False\<close> when it raises \<open>OSError\<close>, as it does on a descriptor that is not
  open. The exception leaves \<^verbatim>\<open>cleanup\<close> at that statement, and the releases after it are
  not made. With the answer \<open>True\<close>, or with no descriptor held, this is \<open>cleanup\<close>.
\<close>

definition cleanup_when :: "bool \<Rightarrow> PYGDS \<Rightarrow> unit outcome" where
  "cleanup_when close_returns s =
     (let t1 = if_truthy (cf_handle s) (\<lambda>h. [CuFileHandleDeregister h]);
          t3 = if_truthy (dptr_w s) (\<lambda>p. [CuFileBufDeregister p, CuMemFree p])
               @ if_truthy (dptr_r s) (\<lambda>p. [CuFileBufDeregister p, CuMemFree p])
               @ if_truthy (hptr s) (\<lambda>p. [CuMemFreeHost p])
               @ if_truthy (ctx s) (\<lambda>c. [CuCtxDestroy c])
               @ [CuFileDriverClose]
      in case fd s of
           None \<Rightarrow> (Inr (), s, t1 @ t3)
         | Some f \<Rightarrow>
             if close_returns then (Inr (), s, t1 @ [OsClose f] @ t3)
             else (Inl OSError, s, t1 @ [OsClose f]))"

text \<open>
  Two invocations of \<^verbatim>\<open>cleanup\<close> in succession on the same object. The first closes the
  descriptor, if the session holds one, and leaves the field set, so in the second
  \<^verbatim>\<open>os.close\<close> is called on a closed descriptor and raises.
\<close>

definition cleanup_twice :: "PYGDS \<Rightarrow> unit outcome" where
  "cleanup_twice s = and_then (cleanup s) (\<lambda>_ s'. cleanup_when False s')"

text \<open>
  The script: \<^verbatim>\<open>gds = PYGDS()\<close> and then \<^verbatim>\<open>gds.run_demo()\<close>, with the default arguments
  of both. When the constructor raises there is no object and nothing else runs.
\<close>

definition main :: "env \<Rightarrow> os_consts \<Rightarrow> (error + unit) \<times> event list" where
  "main e c =
     (case PYGDS_default e of
        (Inl ex, t) \<Rightarrow> (Inl ex, t)
      | (Inr gds, t) \<Rightarrow>
          (case run_demo e c gds ''test_gds.bin'' of (r, s, t') \<Rightarrow> (r, t @ t')))"

section \<open>Example sessions and environments\<close>

text \<open>
  Concrete inputs on which the theorems below are exercised. The buffer is eight
  bytes long so that the host copy is short; the constructor's default of 4096 bytes is
  \<open>PYGDS_default\<close>. In \<open>env_ok\<close> every driver and OS call answers success, and the
  binding is cuda-python, which does not take the byte object of the fill.
\<close>

definition status_ok :: CUfileError where
  "status_ok = \<lparr>err = 0, cu_err = 0\<rparr>"

definition status_failed :: CUfileError where
  "status_failed = \<lparr>err = 5, cu_err = 0\<rparr>"

definition fresh_session :: PYGDS where
  "fresh_session = \<lparr>buffer_size = 8, pattern_byte = 0xAB, device = None, ctx = None,
      dptr_w = None, dptr_r = None, hptr = None, cf_handle = None, fd = None\<rparr>"

definition session_buffers_only :: PYGDS where
  "session_buffers_only = fresh_session\<lparr>dptr_w := Some 4096, dptr_r := Some 8192\<rparr>"

definition session_all_held :: PYGDS where
  "session_all_held = \<lparr>buffer_size = 8, pattern_byte = 0xAB, device = Some 0, ctx = Some 77,
      dptr_w = Some 4096, dptr_r = Some 8192, hptr = Some 12288, cf_handle = Some 99,
      fd = Some 3\<rparr>"

definition env_ok :: env where
  "env_ok = \<lparr>cuInit_res = 0, cuDeviceGet_res = Some 0, cuCtxCreate_res = Some 77,
      cdll_loads = True, driverOpen_res = status_ok,
      memAlloc_w = Some 4096, memAlloc_r = Some 8192, memsetD8_accepts = False,
      bufRegister_w = status_ok, bufRegister_r = status_ok,
      os_open_res = Some 3, handleRegister_out = 99, handleRegister_res = status_ok,
      write_clock = (0, 1 / 1000), write_n = 8,
      read_clock = (1, 1 + 1 / 1000), read_n = 8,
      memAllocHost_res = Some 12288, memcpy_res = 0, host_mem = (\<lambda>a. 0xAB)\<rparr>"

text \<open>The values of the four flags on Linux (x86-64).\<close>

definition linux_consts :: os_consts where
  "linux_consts = \<lparr>O_CREAT = 64, O_RDWR = 2, O_TRUNC = 512, O_DIRECT = 16384\<rparr>"

definition env_short_write :: env where
  "env_short_write = env_ok\<lparr>write_n := 4\<rparr>"

definition env_register_fails :: env where
  "env_register_fails = env_ok\<lparr>bufRegister_w := status_failed\<rparr>"

definition env_handle_register_fails :: env where
  "env_handle_register_fails =
     env_ok\<lparr>handleRegister_out := 0, handleRegister_res := status_failed\<rparr>"

definition env_corrupted :: env where
  "env_corrupted = env_ok\<lparr>host_mem := (\<lambda>a. if a = 12291 then 0 else 0xAB)\<rparr>"

section \<open>Vocabulary for sequences of calls\<close>

text \<open>The first two statements of the \<^verbatim>\<open>try\<close> block: the buffers, then the file.\<close>

definition demo_acquire :: "env \<Rightarrow> os_consts \<Rightarrow> PYGDS \<Rightarrow> string \<Rightarrow> unit outcome" where
  "demo_acquire e c s path =
     and_then (setup_buffers e s) (\<lambda>_ s1. open_file_default e c s1 path)"

definition is_write :: "event \<Rightarrow> bool" where
  "is_write ev = (case ev of CuFileWrite h p sz fo dof n \<Rightarrow> True | _ \<Rightarrow> False)"

definition is_read :: "event \<Rightarrow> bool" where
  "is_read ev = (case ev of CuFileRead h p sz fo dof n \<Rightarrow> True | _ \<Rightarrow> False)"

definition is_transfer :: "event \<Rightarrow> bool" where
  "is_transfer ev = (is_write ev \<or> is_read ev)"

text \<open>
  The release order as the specification words it, six steps one after the other:
  deregister the file handle, close the descriptor, deregister each buffer, free each
  buffer, destroy the context, close the driver. Freeing the host staging buffer is
  counted with the frees. A sequence of calls follows that order when the step numbers
  never decrease along it.
\<close>

fun teardown_phase :: "event \<Rightarrow> nat" where
  "teardown_phase (CuFileHandleDeregister h) = 1"
| "teardown_phase (OsClose f) = 2"
| "teardown_phase (CuFileBufDeregister p) = 3"
| "teardown_phase (CuMemFree p) = 4"
| "teardown_phase (CuMemFreeHost p) = 4"
| "teardown_phase (CuCtxDestroy c) = 5"
| "teardown_phase CuFileDriverClose = 6"
| "teardown_phase ev = 0"

text \<open>
  The stages of \<^verbatim>\<open>cleanup\<close> as it is written: the device buffers form one stage, in
  which each buffer is deregistered and freed before the next one is touched; the host
  staging buffer has a stage of its own.
\<close>

fun teardown_stage :: "event \<Rightarrow> nat" where
  "teardown_stage (CuFileHandleDeregister h) = 1"
| "teardown_stage (OsClose f) = 2"
| "teardown_stage (CuFileBufDeregister p) = 3"
| "teardown_stage (CuMemFree p) = 3"
| "teardown_stage (CuMemFreeHost p) = 4"
| "teardown_stage (CuCtxDestroy c) = 5"
| "teardown_stage CuFileDriverClose = 6"
| "teardown_stage ev = 0"

text \<open>The rest of the \<^verbatim>\<open>try\<close> block: write, report, read, report, verify, report.\<close>

definition demo_use :: "env \<Rightarrow> PYGDS \<Rightarrow> unit outcome" where
  "demo_use e s2 =
     and_then (write_buffer e s2 0 0) (\<lambda>w s3.
     and_then (Inr (), s3, [Print (case w of (mb, ms, bw) \<Rightarrow> WriteReport mb ms bw)]) (\<lambda>_ s4.
     and_then (read_buffer e s4 0 0) (\<lambda>r s5.
     and_then (Inr (), s5, [Print (case r of (mb, ms, bw) \<Rightarrow> ReadReport mb ms bw)]) (\<lambda>_ s6.
     and_then (verify_buffer e s6) (\<lambda>ok s7.
       if ok then (Inr (), s7, [Print (VerificationPassed (pattern_byte s7))])
       else (Inr (), s7, []))))))"

text \<open>
  The registration status of the specification's data model, kept as the driver would:
  a buffer or a file handle becomes registered when its registration call returns
  status zero, and unregistered again when it is deregistered. The pair is the list of
  registered buffers and the list of registered handles.
\<close>

fun driver_step :: "event \<Rightarrow> nat list \<times> nat list \<Rightarrow> nat list \<times> nat list" where
  "driver_step (CuFileBufRegister p sz fl st) (bs, hs) =
     (if err st = 0 then (p # bs, hs) else (bs, hs))"
| "driver_step (CuFileHandleRegister d h st) (bs, hs) =
     (if err st = 0 then (bs, h # hs) else (bs, hs))"
| "driver_step (CuFileBufDeregister p) (bs, hs) = (removeAll p bs, hs)"
| "driver_step (CuFileHandleDeregister h) (bs, hs) = (bs, removeAll h hs)"
| "driver_step ev (bs, hs) = (bs, hs)"

definition registered_after :: "event list \<Rightarrow> nat list \<times> nat list" where
  "registered_after evs = fold driver_step evs ([], [])"

text \<open>Every deregistration of a buffer finds the buffer registered.\<close>

fun dereg_only_registered :: "nat list \<times> nat list \<Rightarrow> event list \<Rightarrow> bool" where
  "dereg_only_registered d [] = True"
| "dereg_only_registered d (ev # evs) =
     ((case ev of CuFileBufDeregister p \<Rightarrow> p \<in> set (fst d) | _ \<Rightarrow> True)
      \<and> dereg_only_registered (driver_step ev d) evs)"

text \<open>Every free of device memory comes directly after the deregistration of the same
  pointer; \<open>prev\<close> is the call before the list.\<close>

fun free_follows_dereg :: "event option \<Rightarrow> event list \<Rightarrow> bool" where
  "free_follows_dereg prev [] = True"
| "free_follows_dereg prev (ev # evs) =
     ((case ev of CuMemFree q \<Rightarrow> prev = Some (CuFileBufDeregister q) | _ \<Rightarrow> True)
      \<and> free_follows_dereg (Some ev) evs)"

text \<open>Calls that neither release anything nor touch a registration.\<close>

fun quiet :: "event \<Rightarrow> bool" where
  "quiet (CuFileBufRegister p sz fl st) = False"
| "quiet (CuFileHandleRegister d h st) = False"
| "quiet (CuFileHandleDeregister h) = False"
| "quiet (OsClose f) = False"
| "quiet (CuFileBufDeregister p) = False"
| "quiet (CuMemFree p) = False"
| "quiet (CuMemFreeHost p) = False"
| "quiet (CuCtxDestroy c) = False"
| "quiet CuFileDriverClose = False"
| "quiet ev = True"

text \<open>A flag word contains a flag when every bit of the flag is set in it.\<close>

definition has_flag :: "int \<Rightarrow> int \<Rightarrow> bool" where
  "has_flag flags f = (flags AND f = f)"

section \<open>Sequencing\<close>

lemma res_of_and_then:
  "res_of (and_then m f) =
     (case res_of m of Inl ex \<Rightarrow> Inl ex | Inr v \<Rightarrow> res_of (f v (sess_of m)))"
  by (cases m) (auto simp: and_then_def res_of_def sess_of_def split: sum.splits prod.splits)

lemma sess_of_and_then:
  "sess_of (and_then m f) =
     (case res_of m of Inl ex \<Rightarrow> sess_of m | Inr v \<Rightarrow> sess_of (f v (sess_of m)))"
  by (cases m) (auto simp: and_then_def res_of_def sess_of_def split: sum.splits prod.splits)

lemma calls_of_and_then:
  "calls_of (and_then m f) =
     calls_of m @ (case res_of m of Inl ex \<Rightarrow> [] | Inr v \<Rightarrow> calls_of (f v (sess_of m)))"
  by (cases m)
    (auto simp: and_then_def res_of_def sess_of_def calls_of_def split: sum.splits prod.splits)

lemma calls_of_lit: "calls_of (r, s, t) = t"
  by (simp add: calls_of_def)

lemma res_of_lit: "res_of (r, s, t) = r"
  by (simp add: res_of_def)

lemma sess_of_lit: "sess_of (r, s, t) = s"
  by (simp add: sess_of_def)

lemma and_then_assoc:
  "and_then (and_then m f) g = and_then m (\<lambda>v s. and_then (f v s) g)"
  by (cases m) (auto simp: and_then_def split: sum.splits prod.splits)

lemma demo_body_split:
  "demo_body e c s path = and_then (demo_acquire e c s path) (\<lambda>_ s2. demo_use e s2)"
  by (simp add: demo_body_def demo_acquire_def demo_use_def and_then_assoc)

section \<open>Teardown\<close>

lemma calls_of_cleanup:
  "calls_of (cleanup s) =
      if_truthy (cf_handle s) (\<lambda>h. [CuFileHandleDeregister h])
      @ (case fd s of None \<Rightarrow> [] | Some f \<Rightarrow> [OsClose f])
      @ if_truthy (dptr_w s) (\<lambda>p. [CuFileBufDeregister p, CuMemFree p])
      @ if_truthy (dptr_r s) (\<lambda>p. [CuFileBufDeregister p, CuMemFree p])
      @ if_truthy (hptr s) (\<lambda>p. [CuMemFreeHost p])
      @ if_truthy (ctx s) (\<lambda>c. [CuCtxDestroy c])
      @ [CuFileDriverClose]"
  by (simp add: cleanup_def calls_of_def)

lemma sess_of_cleanup: "sess_of (cleanup s) = s"
  by (simp add: cleanup_def sess_of_def)

lemma res_of_cleanup: "res_of (cleanup s) = Inr ()"
  by (simp add: cleanup_def res_of_def)

lemma set_if_truthy:
  "x \<in> set (if_truthy v f) \<longleftrightarrow> (\<exists>p. v = Some p \<and> p \<noteq> 0 \<and> x \<in> set (f p))"
  by (auto simp: if_truthy_def split: option.splits)

text \<open>
  C6. Each release step of \<open>cleanup\<close> stands on its own guard. A release call is made
  for a resource exactly when the session holds it: the file handle, the device
  pointers, the host pointer and the context when the field is a non-null handle, the
  descriptor when the field is not \<open>None\<close>. So a field that still holds \<open>None\<close> has
  its release skipped, every held resource is released whatever the other fields hold,
  and no release call is made on a value the session does not hold. The driver is
  closed in every case.
\<close>

theorem cleanup_releases_exactly_held:
  "(CuFileHandleDeregister h \<in> set (calls_of (cleanup s)) \<longleftrightarrow> cf_handle s = Some h \<and> h \<noteq> 0)
   \<and> (OsClose f \<in> set (calls_of (cleanup s)) \<longleftrightarrow> fd s = Some f)
   \<and> (CuFileBufDeregister p \<in> set (calls_of (cleanup s)) \<longleftrightarrow>
        p \<noteq> 0 \<and> (dptr_w s = Some p \<or> dptr_r s = Some p))
   \<and> (CuMemFree p \<in> set (calls_of (cleanup s)) \<longleftrightarrow>
        p \<noteq> 0 \<and> (dptr_w s = Some p \<or> dptr_r s = Some p))
   \<and> (CuMemFreeHost q \<in> set (calls_of (cleanup s)) \<longleftrightarrow> hptr s = Some q \<and> q \<noteq> 0)
   \<and> (CuCtxDestroy c \<in> set (calls_of (cleanup s)) \<longleftrightarrow> ctx s = Some c \<and> c \<noteq> 0)
   \<and> CuFileDriverClose \<in> set (calls_of (cleanup s))
   \<and> res_of (cleanup s) = Inr ()"
  by (auto simp: calls_of_cleanup res_of_cleanup set_if_truthy split: option.splits)

text \<open>
  The theorem at a session that holds the two device buffers and nothing else (the
  state after \<^verbatim>\<open>os.open\<close> raised): both buffers are released, and no file, host buffer
  or context step is made.
\<close>

theorem cleanup_releases_exactly_held_witness:
  "CuFileBufDeregister 4096 \<in> set (calls_of (cleanup session_buffers_only))
   \<and> CuMemFree 8192 \<in> set (calls_of (cleanup session_buffers_only))
   \<and> CuFileHandleDeregister 99 \<notin> set (calls_of (cleanup session_buffers_only))
   \<and> OsClose 3 \<notin> set (calls_of (cleanup session_buffers_only))
   \<and> CuMemFreeHost 12288 \<notin> set (calls_of (cleanup session_buffers_only))
   \<and> CuCtxDestroy 77 \<notin> set (calls_of (cleanup session_buffers_only))"
  using cleanup_releases_exactly_held [where s = session_buffers_only and h = 99 and f = 3
      and p = 4096 and q = 12288 and c = 77]
    cleanup_releases_exactly_held [where s = session_buffers_only and p = 8192]
  by (simp add: session_buffers_only_def fresh_session_def)

lemma stage_if_truthy:
  "(\<And>p. \<forall>x\<in>set (f p). teardown_stage x = k) \<Longrightarrow>
     \<forall>x\<in>set (if_truthy v f). teardown_stage x = k"
  by (auto simp: if_truthy_def split: option.splits)

lemma sorted_stage_cleanup: "sorted (map teardown_stage (calls_of (cleanup s)))"
proof -
  have a: "\<forall>x\<in>set (if_truthy (cf_handle s) (\<lambda>h. [CuFileHandleDeregister h])).
             teardown_stage x = 1"
    by (rule stage_if_truthy) simp
  have b: "\<forall>x\<in>set (case fd s of None \<Rightarrow> [] | Some f \<Rightarrow> [OsClose f]). teardown_stage x = 2"
    by (auto split: option.splits)
  have w: "\<forall>x\<in>set (if_truthy (dptr_w s) (\<lambda>p. [CuFileBufDeregister p, CuMemFree p])).
             teardown_stage x = 3"
    by (rule stage_if_truthy) simp
  have r: "\<forall>x\<in>set (if_truthy (dptr_r s) (\<lambda>p. [CuFileBufDeregister p, CuMemFree p])).
             teardown_stage x = 3"
    by (rule stage_if_truthy) simp
  have h: "\<forall>x\<in>set (if_truthy (hptr s) (\<lambda>p. [CuMemFreeHost p])). teardown_stage x = 4"
    by (rule stage_if_truthy) simp
  have c: "\<forall>x\<in>set (if_truthy (ctx s) (\<lambda>c. [CuCtxDestroy c])). teardown_stage x = 5"
    by (rule stage_if_truthy) simp
  have const: "\<And>xs k. \<forall>x\<in>set xs. teardown_stage x = k \<Longrightarrow> sorted (map teardown_stage xs)"
    by (simp add: sorted_iff_nth_mono)
  show ?thesis
    unfolding calls_of_cleanup
    using a b w r h c const[OF a] const[OF b] const[OF w] const[OF r] const[OF h] const[OF c]
    by (auto simp: sorted_append)
qed

lemma driver_close_last:
  "last (calls_of (cleanup s)) = CuFileDriverClose
   \<and> CuFileDriverClose \<notin> set (butlast (calls_of (cleanup s)))"
  by (auto simp: calls_of_cleanup butlast_append set_if_truthy split: option.splits)

lemma buffer_steps_cleanup:
  "filter (\<lambda>ev. teardown_stage ev = 3) (calls_of (cleanup s)) =
     if_truthy (dptr_w s) (\<lambda>p. [CuFileBufDeregister p, CuMemFree p])
     @ if_truthy (dptr_r s) (\<lambda>p. [CuFileBufDeregister p, CuMemFree p])"
proof -
  have a: "filter (\<lambda>ev. teardown_stage ev = 3) (if_truthy v (\<lambda>h. [CuFileHandleDeregister h])) = []"
    for v
    by (simp add: if_truthy_def split: option.splits)
  have h: "filter (\<lambda>ev. teardown_stage ev = 3) (if_truthy v (\<lambda>h. [CuMemFreeHost h])) = []" for v
    by (simp add: if_truthy_def split: option.splits)
  have c: "filter (\<lambda>ev. teardown_stage ev = 3) (if_truthy v (\<lambda>h. [CuCtxDestroy h])) = []" for v
    by (simp add: if_truthy_def split: option.splits)
  have b: "filter (\<lambda>ev. teardown_stage ev = 3)
             (if_truthy v (\<lambda>p. [CuFileBufDeregister p, CuMemFree p]))
           = if_truthy v (\<lambda>p. [CuFileBufDeregister p, CuMemFree p])" for v
    by (simp add: if_truthy_def split: option.splits)
  have f: "filter (\<lambda>ev. teardown_stage ev = 3) (case fd s of None \<Rightarrow> [] | Some f \<Rightarrow> [OsClose f]) = []"
    by (simp split: option.splits)
  show ?thesis
    by (simp add: calls_of_cleanup a h c b f)
qed

lemma all_release_cleanup: "list_all (\<lambda>ev. 1 \<le> teardown_stage ev) (calls_of (cleanup s))"
  by (auto simp: calls_of_cleanup list_all_iff set_if_truthy split: option.splits)

text \<open>
  C2, as stated, fails. With both device buffers held, \<open>cleanup\<close> frees the write
  buffer before it deregisters the read buffer, so the calls do not run through the six
  steps in order: a free (step four) comes before a deregistration (step three).
\<close>

theorem cleanup_not_in_claimed_phase_order:
  "\<not> sorted (map teardown_phase (calls_of (cleanup session_buffers_only)))"
  by (simp add: calls_of_cleanup session_buffers_only_def fresh_session_def if_truthy_def)

text \<open>
  C2, amended. The calls of \<open>cleanup\<close> run through its stages in order: the file handle
  is deregistered, the descriptor closed, then the device buffers are handled one at a
  time (the write buffer deregistered and freed, then the read buffer deregistered and
  freed), then the host staging buffer is freed, the context destroyed and the driver
  closed. Every call is one of these releases. Closing the driver is the last call and
  is made once, so it comes after every deregistration.
\<close>

theorem cleanup_release_order:
  "sorted (map teardown_stage (calls_of (cleanup s)))
   \<and> list_all (\<lambda>ev. 1 \<le> teardown_stage ev) (calls_of (cleanup s))
   \<and> filter (\<lambda>ev. teardown_stage ev = 3) (calls_of (cleanup s)) =
        if_truthy (dptr_w s) (\<lambda>p. [CuFileBufDeregister p, CuMemFree p])
        @ if_truthy (dptr_r s) (\<lambda>p. [CuFileBufDeregister p, CuMemFree p])
   \<and> last (calls_of (cleanup s)) = CuFileDriverClose
   \<and> CuFileDriverClose \<notin> set (butlast (calls_of (cleanup s)))"
  using sorted_stage_cleanup all_release_cleanup buffer_steps_cleanup driver_close_last
  by blast

text \<open>The order at a session that holds every resource.\<close>

theorem cleanup_release_order_witness:
  "calls_of (cleanup session_all_held) =
     [CuFileHandleDeregister 99, OsClose 3, CuFileBufDeregister 4096, CuMemFree 4096,
      CuFileBufDeregister 8192, CuMemFree 8192, CuMemFreeHost 12288, CuCtxDestroy 77,
      CuFileDriverClose]
   \<and> sorted (map teardown_stage (calls_of (cleanup session_all_held)))
   \<and> last (calls_of (cleanup session_all_held)) = CuFileDriverClose"
  using cleanup_release_order [of session_all_held]
  by (simp add: calls_of_cleanup session_all_held_def if_truthy_def)

section \<open>The methods, one by one\<close>

lemma sess_of_write_buffer: "sess_of (write_buffer e s fo dof) = s"
  by (simp add: write_buffer_def sess_of_def Let_def split: option.splits)

lemma sess_of_read_buffer: "sess_of (read_buffer e s fo dof) = s"
  by (simp add: read_buffer_def sess_of_def Let_def split: option.splits)

lemma sess_of_setup_buffers:
  "sess_of (setup_buffers e s) = s\<lparr>dptr_w := memAlloc_w e, dptr_r := memAlloc_r e\<rparr>"
  by (simp add: setup_buffers_def sess_of_def Let_def case_prod_beta del: register_each.simps)

lemma calls_of_setup_buffers:
  "calls_of (setup_buffers e s) =
     (if \<not> memsetD8_accepts e then [CuMemAlloc (buffer_size s), CuMemAlloc (buffer_size s)]
      else
        [CuMemAlloc (buffer_size s), CuMemAlloc (buffer_size s),
         CuMemsetD8 (memAlloc_w e) (pattern_byte s mod 256) (buffer_size s)]
        @ snd (register_each (buffer_size s)
                 [(memAlloc_w e, bufRegister_w e), (memAlloc_r e, bufRegister_r e)]))"
  by (simp add: setup_buffers_def calls_of_def Let_def case_prod_beta del: register_each.simps)

lemma res_of_setup_buffers:
  "res_of (setup_buffers e s) =
     (if \<not> memsetD8_accepts e then Inl TypeError
      else fst (register_each (buffer_size s)
                  [(memAlloc_w e, bufRegister_w e), (memAlloc_r e, bufRegister_r e)]))"
  by (simp add: setup_buffers_def res_of_def Let_def case_prod_beta del: register_each.simps)

lemma sess_of_open_file:
  "sess_of (open_file e s path fl md) =
     (case os_open_res e of None \<Rightarrow> s
      | Some f \<Rightarrow> s\<lparr>fd := Some f, cf_handle := Some (handleRegister_out e)\<rparr>)"
  by (simp add: open_file_def sess_of_def Let_def split: option.splits sum.splits)

lemma sess_of_verify_buffer:
  "sess_of (verify_buffer e s) = s\<lparr>hptr := memAllocHost_res e\<rparr>"
  by (simp add: verify_buffer_def sess_of_def Let_def split: option.splits sum.splits)

lemma res_of_write_buffer:
  "res_of (write_buffer e s fo dof) =
     (case dptr_w s of None \<Rightarrow> Inl TypeError
      | Some p \<Rightarrow>
          if write_n e \<noteq> int (buffer_size s) then Inl (WriteReturned (write_n e))
          else if snd (write_clock e) - fst (write_clock e) = 0 then Inl ZeroDivisionError
          else Inr (real_of_int (write_n e) / 1000000,
                    (snd (write_clock e) - fst (write_clock e)) * 1000,
                    (real_of_int (write_n e) / (snd (write_clock e) - fst (write_clock e)))
                      / 1000000000))"
  by (simp add: write_buffer_def res_of_def Let_def split: option.splits)

lemma calls_of_write_buffer:
  "calls_of (write_buffer e s fo dof) =
     (case dptr_w s of None \<Rightarrow> []
      | Some p \<Rightarrow> [CuFileWrite (cf_handle s) p (buffer_size s) fo dof (write_n e)])"
  by (simp add: write_buffer_def calls_of_def Let_def split: option.splits)

lemma res_of_read_buffer:
  "res_of (read_buffer e s fo dof) =
     (case dptr_r s of None \<Rightarrow> Inl TypeError
      | Some p \<Rightarrow>
          if read_n e \<noteq> int (buffer_size s) then Inl (ReadReturned (read_n e))
          else if snd (read_clock e) - fst (read_clock e) = 0 then Inl ZeroDivisionError
          else Inr (real_of_int (read_n e) / 1000000,
                    (snd (read_clock e) - fst (read_clock e)) * 1000,
                    (real_of_int (read_n e) / (snd (read_clock e) - fst (read_clock e)))
                      / 1000000000))"
  by (simp add: read_buffer_def res_of_def Let_def split: option.splits)

lemma calls_of_read_buffer:
  "calls_of (read_buffer e s fo dof) =
     (case dptr_r s of None \<Rightarrow> []
      | Some p \<Rightarrow> [CuFileRead (cf_handle s) p (buffer_size s) fo dof (read_n e)])"
  by (simp add: read_buffer_def calls_of_def Let_def split: option.splits)

lemma calls_of_run_demo:
  "calls_of (run_demo e c s path) =
     calls_of (demo_body e c s path) @ calls_of (cleanup (sess_of (demo_body e c s path)))"
  by (simp add: run_demo_def calls_of_def sess_of_def cleanup_def split: prod.splits)

lemma res_of_run_demo: "res_of (run_demo e c s path) = res_of (demo_body e c s path)"
  by (simp add: run_demo_def res_of_def cleanup_def split: prod.splits)

lemma sess_of_run_demo: "sess_of (run_demo e c s path) = sess_of (demo_body e c s path)"
  by (simp add: run_demo_def sess_of_def cleanup_def split: prod.splits)

section \<open>Transfers\<close>

lemma no_transfer_register_each: "filter is_transfer (snd (register_each sz ps)) = []"
  by (induction sz ps rule: register_each.induct)
     (auto simp: is_transfer_def is_write_def is_read_def
        split: option.splits sum.splits prod.splits)

lemma no_transfer_setup_buffers: "filter is_transfer (calls_of (setup_buffers e s)) = []"
  by (simp add: calls_of_setup_buffers no_transfer_register_each is_transfer_def is_write_def
      is_read_def del: register_each.simps)

lemma no_transfer_open_file: "filter is_transfer (calls_of (open_file e s path fl md)) = []"
  by (auto simp: open_file_def calls_of_def Let_def is_transfer_def is_write_def is_read_def
      split: option.splits sum.splits)

lemma no_transfer_verify_buffer: "filter is_transfer (calls_of (verify_buffer e s)) = []"
  by (auto simp: verify_buffer_def calls_of_def Let_def is_transfer_def is_write_def is_read_def
      split: option.splits sum.splits)

lemma no_transfer_cleanup: "filter is_transfer (calls_of (cleanup s)) = []"
  by (auto simp: calls_of_cleanup if_truthy_def is_transfer_def is_write_def is_read_def
      split: option.splits)

lemma transfers_demo_body:
  "filter is_transfer (calls_of (demo_body e c s path)) =
     (case res_of (demo_acquire e c s path) of
        Inl ex \<Rightarrow> []
      | Inr _ \<Rightarrow>
          calls_of (write_buffer e (sess_of (demo_acquire e c s path)) 0 0) @
          (case res_of (write_buffer e (sess_of (demo_acquire e c s path)) 0 0) of
             Inl ex \<Rightarrow> []
           | Inr _ \<Rightarrow> calls_of (read_buffer e (sess_of (demo_acquire e c s path)) 0 0)))"
  unfolding demo_acquire_def
  apply (simp add: demo_body_def calls_of_and_then res_of_and_then sess_of_and_then
      no_transfer_setup_buffers no_transfer_open_file no_transfer_verify_buffer
      open_file_default_def sess_of_write_buffer sess_of_read_buffer calls_of_lit res_of_lit
      sess_of_lit split: sum.splits)
  apply (auto simp: calls_of_write_buffer calls_of_read_buffer is_transfer_def is_write_def
      is_read_def calls_of_lit split: option.splits prod.splits)
  done

lemma transfers_run_demo:
  "filter is_transfer (calls_of (run_demo e c s path)) =
     filter is_transfer (calls_of (demo_body e c s path))"
  by (simp add: calls_of_run_demo no_transfer_cleanup)

lemma filter_read_transfer: "filter is_read (filter is_transfer xs) = filter is_read xs"
  by (induction xs) (auto simp: is_transfer_def)

lemma filter_write_transfer: "filter is_write (filter is_transfer xs) = filter is_write xs"
  by (induction xs) (auto simp: is_transfer_def)

lemma write_call_mismatch:
  "CuFileWrite h p sz a b n \<in> set (calls_of (write_buffer e s fo dof)) \<Longrightarrow> n \<noteq> int sz \<Longrightarrow>
     res_of (write_buffer e s fo dof) = Inl (WriteReturned n)"
  by (cases "dptr_w s") (auto simp: calls_of_write_buffer res_of_write_buffer)

lemma read_call_mismatch:
  "CuFileRead h p sz a b n \<in> set (calls_of (read_buffer e s fo dof)) \<Longrightarrow> n \<noteq> int sz \<Longrightarrow>
     res_of (read_buffer e s fo dof) = Inl (ReadReturned n)"
  by (cases "dptr_r s") (auto simp: calls_of_read_buffer res_of_read_buffer)

lemma write_ok_count:
  "res_of (write_buffer e s fo dof) = Inr r \<Longrightarrow> write_n e = int (buffer_size s)"
  by (auto simp: res_of_write_buffer split: option.splits if_splits)

lemma read_ok_count:
  "res_of (read_buffer e s fo dof) = Inr r \<Longrightarrow> read_n e = int (buffer_size s)"
  by (auto simp: res_of_read_buffer split: option.splits if_splits)

lemma transfers_demo_use:
  "filter is_transfer (calls_of (demo_use e s)) =
     calls_of (write_buffer e s 0 0) @
     (case res_of (write_buffer e s 0 0) of
        Inl ex \<Rightarrow> []
      | Inr _ \<Rightarrow> calls_of (read_buffer e s 0 0))"
  apply (simp add: demo_use_def calls_of_and_then res_of_and_then sess_of_and_then
      no_transfer_verify_buffer sess_of_write_buffer sess_of_read_buffer calls_of_lit res_of_lit
      sess_of_lit split: sum.splits)
  apply (auto simp: calls_of_write_buffer calls_of_read_buffer is_transfer_def is_write_def
      is_read_def calls_of_lit split: option.splits prod.splits)
  done

lemma res_of_demo_use_write:
  "res_of (write_buffer e s 0 0) = Inl ex \<Longrightarrow> res_of (demo_use e s) = Inl ex"
  by (simp add: demo_use_def res_of_and_then)

lemma res_of_demo_use_read:
  "res_of (write_buffer e s 0 0) = Inr w \<Longrightarrow> res_of (read_buffer e s 0 0) = Inl ex \<Longrightarrow>
     res_of (demo_use e s) = Inl ex"
  by (simp add: demo_use_def res_of_and_then sess_of_and_then sess_of_write_buffer sess_of_lit
      res_of_lit)

lemma demo_use_failed_write:
  assumes "CuFileWrite h p sz a b n \<in> set (calls_of (demo_use e s))" and "n \<noteq> int sz"
  shows "res_of (demo_use e s) = Inl (WriteReturned n)
         \<and> \<not> list_ex is_read (calls_of (demo_use e s))"
proof -
  let ?w = "write_buffer e s 0 0"
  from assms(1)
  have m: "CuFileWrite h p sz a b n \<in> set (filter is_transfer (calls_of (demo_use e s)))"
    by (simp add: is_transfer_def is_write_def)
  then have "CuFileWrite h p sz a b n \<in> set (calls_of ?w)"
    by (auto simp: transfers_demo_use calls_of_read_buffer split: sum.splits option.splits)
  from write_call_mismatch[OF this assms(2)] have w: "res_of ?w = Inl (WriteReturned n)" .
  have r: "res_of (demo_use e s) = Inl (WriteReturned n)"
    by (rule res_of_demo_use_write[OF w])
  have "filter is_read (filter is_transfer (calls_of (demo_use e s))) = []"
    using w
    by (auto simp: transfers_demo_use calls_of_write_buffer is_read_def split: option.splits)
  then have "filter is_read (calls_of (demo_use e s)) = []"
    by (simp only: filter_read_transfer)
  then have "\<not> list_ex is_read (calls_of (demo_use e s))"
    by (simp add: list_ex_iff filter_empty_conv)
  with r show ?thesis by simp
qed

lemma demo_use_failed_read:
  assumes "CuFileRead h p sz a b n \<in> set (calls_of (demo_use e s))" and "n \<noteq> int sz"
  shows "res_of (demo_use e s) = Inl (ReadReturned n)"
proof -
  let ?w = "write_buffer e s 0 0"
  let ?r = "read_buffer e s 0 0"
  from assms(1)
  have m: "CuFileRead h p sz a b n \<in> set (filter is_transfer (calls_of (demo_use e s)))"
    by (simp add: is_transfer_def is_read_def)
  then obtain w where w: "res_of ?w = Inr w"
    by (cases "res_of ?w") (auto simp: transfers_demo_use calls_of_write_buffer split: option.splits)
  from m w have "CuFileRead h p sz a b n \<in> set (calls_of ?r)"
    by (auto simp: transfers_demo_use calls_of_write_buffer split: sum.splits option.splits)
  from read_call_mismatch[OF this assms(2)] have "res_of ?r = Inl (ReadReturned n)" .
  then show ?thesis
    by (rule res_of_demo_use_read[OF w])
qed

lemma run_demo_transfer_counts:
  "length (filter is_write (calls_of (run_demo e c s path))) \<le> 1
   \<and> length (filter is_read (calls_of (run_demo e c s path))) \<le> 1"
  by (subst filter_write_transfer [symmetric], subst filter_read_transfer [symmetric])
     (auto simp: transfers_run_demo transfers_demo_body calls_of_write_buffer
        calls_of_read_buffer is_write_def is_read_def split: sum.splits option.splits)

lemma run_demo_transfers_are_demo_use:
  "filter is_transfer (calls_of (run_demo e c s path)) =
     (case res_of (demo_acquire e c s path) of
        Inl ex \<Rightarrow> []
      | Inr _ \<Rightarrow> filter is_transfer (calls_of (demo_use e (sess_of (demo_acquire e c s path)))))"
  by (simp add: transfers_run_demo transfers_demo_body transfers_demo_use cong: sum.case_cong)

lemma res_of_run_demo_demo_use:
  "res_of (run_demo e c s path) =
     (case res_of (demo_acquire e c s path) of
        Inl ex \<Rightarrow> Inl ex
      | Inr _ \<Rightarrow> res_of (demo_use e (sess_of (demo_acquire e c s path))))"
  by (simp add: res_of_run_demo demo_body_split res_of_and_then)

text \<open>
  C1. A transfer returns a result only if the byte count the driver call returned
  equals \<open>buffer_size\<close>. Whenever the driver call was made and returned any other
  count, negative ones included, the method raises the error that carries that count.
  In the sequence of the \<^verbatim>\<open>try\<close> block (write, read, verify), a write that returned
  another count ends the sequence with that error and no read is issued; a read that
  returned another count ends it with its error. The transfers and the result of a run
  are those of that sequence when the buffers and the file were set up, and none
  otherwise; a run issues at most one write and at most one read, so a failed transfer
  is never tried again.
\<close>

theorem transfer_succeeds_only_on_full_count:
  "(\<forall>r. res_of (write_buffer e s fo dof) = Inr r \<longrightarrow> write_n e = int (buffer_size s))
   \<and> (\<forall>r. res_of (read_buffer e s fo dof) = Inr r \<longrightarrow> read_n e = int (buffer_size s))
   \<and> (\<forall>h p sz a b n. CuFileWrite h p sz a b n \<in> set (calls_of (write_buffer e s fo dof))
          \<and> n \<noteq> int sz \<longrightarrow> res_of (write_buffer e s fo dof) = Inl (WriteReturned n))
   \<and> (\<forall>h p sz a b n. CuFileRead h p sz a b n \<in> set (calls_of (read_buffer e s fo dof))
          \<and> n \<noteq> int sz \<longrightarrow> res_of (read_buffer e s fo dof) = Inl (ReadReturned n))
   \<and> (\<forall>h p sz a b n. CuFileWrite h p sz a b n \<in> set (calls_of (demo_use e s))
          \<and> n \<noteq> int sz \<longrightarrow>
          res_of (demo_use e s) = Inl (WriteReturned n)
          \<and> \<not> list_ex is_read (calls_of (demo_use e s)))
   \<and> (\<forall>h p sz a b n. CuFileRead h p sz a b n \<in> set (calls_of (demo_use e s))
          \<and> n \<noteq> int sz \<longrightarrow> res_of (demo_use e s) = Inl (ReadReturned n))
   \<and> filter is_transfer (calls_of (run_demo e c s path)) =
       (case res_of (demo_acquire e c s path) of
          Inl ex \<Rightarrow> []
        | Inr _ \<Rightarrow>
            filter is_transfer (calls_of (demo_use e (sess_of (demo_acquire e c s path)))))
   \<and> res_of (run_demo e c s path) =
       (case res_of (demo_acquire e c s path) of
          Inl ex \<Rightarrow> Inl ex
        | Inr _ \<Rightarrow> res_of (demo_use e (sess_of (demo_acquire e c s path))))
   \<and> length (filter is_write (calls_of (run_demo e c s path))) \<le> 1
   \<and> length (filter is_read (calls_of (run_demo e c s path))) \<le> 1"
proof -
  have w1: "\<forall>r. res_of (write_buffer e s fo dof) = Inr r \<longrightarrow> write_n e = int (buffer_size s)"
    by (auto dest: write_ok_count)
  have r1: "\<forall>r. res_of (read_buffer e s fo dof) = Inr r \<longrightarrow> read_n e = int (buffer_size s)"
    by (auto dest: read_ok_count)
  have w2: "\<forall>h p sz a b n. CuFileWrite h p sz a b n \<in> set (calls_of (write_buffer e s fo dof))
          \<and> n \<noteq> int sz \<longrightarrow> res_of (write_buffer e s fo dof) = Inl (WriteReturned n)"
    by (auto dest: write_call_mismatch)
  have r2: "\<forall>h p sz a b n. CuFileRead h p sz a b n \<in> set (calls_of (read_buffer e s fo dof))
          \<and> n \<noteq> int sz \<longrightarrow> res_of (read_buffer e s fo dof) = Inl (ReadReturned n)"
    by (auto dest: read_call_mismatch)
  have w3: "\<forall>h p sz a b n. CuFileWrite h p sz a b n \<in> set (calls_of (demo_use e s))
          \<and> n \<noteq> int sz \<longrightarrow>
          res_of (demo_use e s) = Inl (WriteReturned n)
          \<and> \<not> list_ex is_read (calls_of (demo_use e s))"
    using demo_use_failed_write [of _ _ _ _ _ _ e s] by blast
  have r3: "\<forall>h p sz a b n. CuFileRead h p sz a b n \<in> set (calls_of (demo_use e s))
          \<and> n \<noteq> int sz \<longrightarrow> res_of (demo_use e s) = Inl (ReadReturned n)"
    using demo_use_failed_read [of _ _ _ _ _ _ e s] by blast
  note n = run_demo_transfer_counts [of e c s path]
  show ?thesis
    by (intro conjI)
       (rule w1 r1 w2 r2 w3 r3 run_demo_transfers_are_demo_use res_of_run_demo_demo_use
          conjunct1[OF n] conjunct2[OF n])+
qed

text \<open>
  The driver writes four of the eight bytes. Called on the session that holds every
  resource, \<open>write_buffer\<close> makes the call and raises the error carrying the count four, and
  the sequence of the \<^verbatim>\<open>try\<close> block stops there with no read. The run from a fresh
  session under cuda-python raises at the fill and issues no transfer at all.
\<close>

theorem transfer_succeeds_only_on_full_count_witness:
  "calls_of (write_buffer env_short_write session_all_held 0 0)
     = [CuFileWrite (Some 99) 4096 8 0 0 4]
   \<and> res_of (write_buffer env_short_write session_all_held 0 0) = Inl (WriteReturned 4)
   \<and> res_of (demo_use env_short_write session_all_held) = Inl (WriteReturned 4)
   \<and> \<not> list_ex is_read (calls_of (demo_use env_short_write session_all_held))
   \<and> res_of (run_demo env_short_write linux_consts fresh_session ''test_gds.bin'')
       = Inl TypeError
   \<and> filter is_transfer
        (calls_of (run_demo env_short_write linux_consts fresh_session ''test_gds.bin'')) = []"
proof -
  have c: "calls_of (write_buffer env_short_write session_all_held 0 0)
     = [CuFileWrite (Some 99) 4096 8 0 0 4]"
    by (simp add: calls_of_write_buffer session_all_held_def env_short_write_def env_ok_def)
  have "CuFileWrite (Some 99) 4096 8 0 0 4
     \<in> set (filter is_transfer (calls_of (demo_use env_short_write session_all_held)))"
    by (simp add: transfers_demo_use c)
  then have m: "CuFileWrite (Some 99) 4096 8 0 0 4
     \<in> set (calls_of (demo_use env_short_write session_all_held))"
    by simp
  have n: "(4::int) \<noteq> int 8" by simp
  have a: "res_of (demo_acquire env_short_write linux_consts fresh_session ''test_gds.bin'')
      = Inl TypeError"
    by (simp add: demo_acquire_def res_of_and_then res_of_setup_buffers env_short_write_def
        env_ok_def)
  note t = transfer_succeeds_only_on_full_count
    [of env_short_write session_all_held 0 0 linux_consts "''test_gds.bin''"]
  note u = transfer_succeeds_only_on_full_count
    [of env_short_write fresh_session 0 0 linux_consts "''test_gds.bin''"]
  from t c n have w: "res_of (write_buffer env_short_write session_all_held 0 0)
      = Inl (WriteReturned 4)"
    by simp
  from t m n have d: "res_of (demo_use env_short_write session_all_held) = Inl (WriteReturned 4)
      \<and> \<not> list_ex is_read (calls_of (demo_use env_short_write session_all_held))"
    by blast
  from u a have r: "res_of (run_demo env_short_write linux_consts fresh_session ''test_gds.bin'')
       = Inl TypeError
     \<and> filter is_transfer
        (calls_of (run_demo env_short_write linux_consts fresh_session ''test_gds.bin'')) = []"
    by simp
  from c w d r show ?thesis by simp
qed

section \<open>The body of the run\<close>

lemma list_all_and_then:
  "list_all P (calls_of m) \<Longrightarrow> (\<And>v s. list_all P (calls_of (f v s))) \<Longrightarrow>
     list_all P (calls_of (and_then m f))"
  by (simp add: calls_of_and_then split: sum.splits)

lemma quiet_driver_step: "quiet ev \<Longrightarrow> driver_step ev d = d"
  by (cases ev; cases d) simp_all

lemma quiet_stage: "quiet ev \<Longrightarrow> teardown_stage ev = 0"
  by (cases ev) simp_all

lemma quiet_write: "list_all quiet (calls_of (write_buffer e s fo dof))"
  by (simp add: calls_of_write_buffer split: option.splits)

lemma quiet_read: "list_all quiet (calls_of (read_buffer e s fo dof))"
  by (simp add: calls_of_read_buffer split: option.splits)

lemma quiet_verify: "list_all quiet (calls_of (verify_buffer e s))"
  by (simp add: verify_buffer_def calls_of_def Let_def split: option.splits sum.splits)

lemma quiet_demo_use: "list_all quiet (calls_of (demo_use e s))"
  unfolding demo_use_def
  by (intro list_all_and_then quiet_write quiet_read quiet_verify)
     (simp_all add: calls_of_lit)

lemma fold_quiet: "list_all quiet xs \<Longrightarrow> fold driver_step xs d = d"
  by (induction xs arbitrary: d) (simp_all add: quiet_driver_step)

lemma stage0_register_each:
  "list_all (\<lambda>ev. teardown_stage ev = 0) (snd (register_each sz ps))"
  by (induction sz ps rule: register_each.induct)
     (auto split: option.splits sum.splits prod.splits)

lemma stage0_setup_buffers:
  "list_all (\<lambda>ev. teardown_stage ev = 0) (calls_of (setup_buffers e s))"
  by (simp add: calls_of_setup_buffers stage0_register_each del: register_each.simps)

lemma stage0_open_file:
  "list_all (\<lambda>ev. teardown_stage ev = 0) (calls_of (open_file e s path fl md))"
  by (simp add: open_file_def calls_of_def Let_def split: option.splits sum.splits)

lemma stage0_demo_body:
  "list_all (\<lambda>ev. teardown_stage ev = 0) (calls_of (demo_body e c s path))"
  unfolding demo_body_split demo_acquire_def open_file_default_def
  by (intro list_all_and_then stage0_setup_buffers stage0_open_file)
     (use quiet_demo_use in \<open>auto simp: list_all_iff dest: quiet_stage\<close>)

lemma releases_run_demo:
  "filter (\<lambda>ev. 1 \<le> teardown_stage ev) (calls_of (run_demo e c s path))
     = calls_of (cleanup (sess_of (demo_body e c s path)))"
proof -
  have a: "filter (\<lambda>ev. 1 \<le> teardown_stage ev) (calls_of (demo_body e c s path)) = []"
    using stage0_demo_body [of e c s path] by (auto simp: filter_empty_conv list_all_iff)
  have b: "filter (\<lambda>ev. 1 \<le> teardown_stage ev) (calls_of (cleanup s')) = calls_of (cleanup s')"
    for s'
    using all_release_cleanup [of s'] by (auto simp: filter_id_conv list_all_iff)
  show ?thesis unfolding calls_of_run_demo filter_append a b by simp
qed

lemma release_in_run_demo:
  "1 \<le> teardown_stage ev \<Longrightarrow>
     ev \<in> set (calls_of (run_demo e c s path))
       \<longleftrightarrow> ev \<in> set (calls_of (cleanup (sess_of (demo_body e c s path))))"
  using releases_run_demo [of e c s path, THEN arg_cong, of set] by auto

lemma sess_demo_body_fields:
  "ctx (sess_of (demo_body e c s path)) = ctx s
   \<and> dptr_w (sess_of (demo_body e c s path)) = memAlloc_w e
   \<and> dptr_r (sess_of (demo_body e c s path)) = memAlloc_r e
   \<and> buffer_size (sess_of (demo_body e c s path)) = buffer_size s
   \<and> pattern_byte (sess_of (demo_body e c s path)) = pattern_byte s"
  by (simp add: demo_body_def sess_of_and_then res_of_and_then open_file_default_def
        sess_of_open_file sess_of_write_buffer sess_of_read_buffer sess_of_verify_buffer
        sess_of_setup_buffers sess_of_lit res_of_lit split: sum.splits option.splits)

lemma cf_handle_demo_body:
  "cf_handle (sess_of (demo_body e c s path)) =
     (case res_of (setup_buffers e s) of Inl ex \<Rightarrow> cf_handle s
      | Inr u \<Rightarrow> (case os_open_res e of None \<Rightarrow> cf_handle s
                 | Some f \<Rightarrow> Some (handleRegister_out e)))"
  by (simp add: demo_body_def sess_of_and_then res_of_and_then open_file_default_def
        sess_of_open_file sess_of_write_buffer sess_of_read_buffer sess_of_verify_buffer
        sess_of_setup_buffers sess_of_lit res_of_lit split: sum.splits option.splits)

lemma res_of_open_file:
  "res_of (open_file e s path fl md) =
     (case os_open_res e of None \<Rightarrow> Inl OSError
      | Some f \<Rightarrow> check_cufile (handleRegister_res e) ''cuFileHandleRegister'')"
  by (simp add: open_file_def res_of_def Let_def split: option.splits sum.splits)

section \<open>Registrations\<close>

lemma fold_register_each:
  "snd (fold driver_step (snd (register_each sz ps)) d) = snd d
   \<and> set (fst (fold driver_step (snd (register_each sz ps)) d))
       \<subseteq> set (fst d) \<union> {p. \<exists>st. (Some p, st) \<in> set ps \<and> err st = 0}"
proof (induction sz ps arbitrary: d rule: register_each.induct)
  case (1 sz)
  show ?case by simp
next
  case (2 sz ptr st rest)
  show ?case
  proof (cases ptr)
    case None
    then show ?thesis by simp
  next
    case (Some p)
    show ?thesis
    proof (cases "check_cufile st ''cuFileBufRegister''")
      case (Inl ex)
      then have "err st \<noteq> 0" by (auto simp: check_cufile_def split: if_splits)
      with Some Inl show ?thesis by (cases d) simp
    next
      case (Inr u)
      then have ok: "err st = 0" by (auto simp: check_cufile_def split: if_splits)
      obtain bs hs where d: "d = (bs, hs)" by (cases d)
      from "2.IH"[OF Some Inr, of "(p # bs, hs)"] Some Inr ok d
      show ?thesis by (auto simp: case_prod_beta)
    qed
  qed
qed

lemma fold_setup_buffers:
  "snd (fold driver_step (calls_of (setup_buffers e s)) d) = snd d
   \<and> set (fst (fold driver_step (calls_of (setup_buffers e s)) d))
       \<subseteq> set (fst d) \<union> {p. (memAlloc_w e = Some p \<and> err (bufRegister_w e) = 0)
                             \<or> (memAlloc_r e = Some p \<and> err (bufRegister_r e) = 0)}"
proof (cases "memsetD8_accepts e")
  case False
  then have "fold driver_step (calls_of (setup_buffers e s)) d = d"
    by (cases d) (simp add: calls_of_setup_buffers)
  then show ?thesis by simp
next
  case True
  let ?ps = "[(memAlloc_w e, bufRegister_w e), (memAlloc_r e, bufRegister_r e)]"
  let ?F = "fold driver_step (snd (register_each (buffer_size s) ?ps)) d"
  note f = fold_register_each [of "buffer_size s" ?ps d]
  have a: "snd ?F = snd d"
    by (rule conjunct1[OF f])
  have b: "set (fst ?F) \<subseteq> set (fst d) \<union> {p. \<exists>st. (Some p, st) \<in> set ?ps \<and> err st = 0}"
    by (rule conjunct2[OF f])
  have c: "{p. \<exists>st. (Some p, st) \<in> set ?ps \<and> err st = 0}
       \<subseteq> {p. (memAlloc_w e = Some p \<and> err (bufRegister_w e) = 0)
             \<or> (memAlloc_r e = Some p \<and> err (bufRegister_r e) = 0)}"
    by auto
  have q: "fold driver_step (calls_of (setup_buffers e s)) d = ?F"
    using True by (cases d) (simp add: calls_of_setup_buffers del: register_each.simps)
  from b c
  have "set (fst ?F) \<subseteq> set (fst d) \<union> {p. (memAlloc_w e = Some p \<and> err (bufRegister_w e) = 0)
                             \<or> (memAlloc_r e = Some p \<and> err (bufRegister_r e) = 0)}"
    by blast
  with a show ?thesis
    unfolding q by (rule conjI)
qed

lemma fold_open_file:
  "fold driver_step (calls_of (open_file e s path fl md)) (bs, hs) =
     (bs, if os_open_res e \<noteq> None \<and> err (handleRegister_res e) = 0
          then handleRegister_out e # hs else hs)"
  by (auto simp: open_file_def calls_of_def Let_def check_cufile_def
      split: option.splits sum.splits if_splits)

lemma fold_demo_body:
  "fold driver_step (calls_of (demo_body e c s path)) d =
     (case res_of (setup_buffers e s) of
        Inl ex \<Rightarrow> fold driver_step (calls_of (setup_buffers e s)) d
      | Inr u \<Rightarrow>
          fold driver_step (calls_of (open_file_default e c (sess_of (setup_buffers e s)) path))
            (fold driver_step (calls_of (setup_buffers e s)) d))"
  by (simp add: demo_body_split demo_acquire_def calls_of_and_then res_of_and_then
      sess_of_and_then fold_quiet[OF quiet_demo_use] split: sum.splits)

lemma filter_nonzero: "filter (\<lambda>x::nat. x = 0 \<or> 0 < x) xs = xs"
  by (induction xs) auto

lemma fold_if_truthy_handle:
  "fold driver_step (if_truthy v (\<lambda>h. [CuFileHandleDeregister h])) (bs, hs) =
     (bs, filter (\<lambda>h. \<not> (h \<noteq> 0 \<and> v = Some h)) hs)"
  by (auto simp: if_truthy_def removeAll_filter_not_eq filter_nonzero split: option.splits
      intro: filter_cong)

lemma fold_if_truthy_buf:
  "fold driver_step (if_truthy v (\<lambda>p. [CuFileBufDeregister p, CuMemFree p])) (bs, hs) =
     (filter (\<lambda>p. \<not> (p \<noteq> 0 \<and> v = Some p)) bs, hs)"
  by (auto simp: if_truthy_def removeAll_filter_not_eq filter_nonzero split: option.splits
      intro: filter_cong)

lemma fold_if_truthy_host:
  "fold driver_step (if_truthy v (\<lambda>p. [CuMemFreeHost p])) d = d"
  by (cases d) (auto simp: if_truthy_def split: option.splits)

lemma fold_if_truthy_ctx:
  "fold driver_step (if_truthy v (\<lambda>p. [CuCtxDestroy p])) d = d"
  by (cases d) (auto simp: if_truthy_def split: option.splits)

lemma fold_fd:
  "fold driver_step (case v of None \<Rightarrow> [] | Some f \<Rightarrow> [OsClose f]) d = d"
  by (cases d) (auto split: option.splits)

lemma fold_cleanup:
  "fold driver_step (calls_of (cleanup s)) (bs, hs) =
     (filter (\<lambda>p. \<not> (p \<noteq> 0 \<and> dptr_r s = Some p))
        (filter (\<lambda>p. \<not> (p \<noteq> 0 \<and> dptr_w s = Some p)) bs),
      filter (\<lambda>h. \<not> (h \<noteq> 0 \<and> cf_handle s = Some h)) hs)"
  by (simp add: calls_of_cleanup fold_if_truthy_handle fold_if_truthy_buf fold_if_truthy_host
      fold_if_truthy_ctx fold_fd)

lemma cleanup_empties_table:
  assumes "set bs \<subseteq> {p. p \<noteq> 0 \<and> (dptr_w s = Some p \<or> dptr_r s = Some p)}"
    and "set hs \<subseteq> {h. h \<noteq> 0 \<and> cf_handle s = Some h}"
  shows "fold driver_step (calls_of (cleanup s)) (bs, hs) = ([], [])"
  using assms by (auto simp: fold_cleanup filter_empty_conv)

lemma run_demo_leaves_nothing_registered:
  assumes w: "err (bufRegister_w e) = 0 \<longrightarrow> memAlloc_w e \<noteq> Some 0"
    and r: "err (bufRegister_r e) = 0 \<longrightarrow> memAlloc_r e \<noteq> Some 0"
    and h: "err (handleRegister_res e) = 0 \<longrightarrow> handleRegister_out e \<noteq> 0"
  shows "registered_after (calls_of (run_demo e c s path)) = ([], [])"
proof -
  let ?b = "demo_body e c s path"
  let ?s = "sess_of ?b"
  obtain B H where BH: "fold driver_step (calls_of ?b) ([], []) = (B, H)"
    by (cases "fold driver_step (calls_of ?b) ([], [])")
  obtain B1 H1 where s1: "fold driver_step (calls_of (setup_buffers e s)) ([], []) = (B1, H1)"
    by (cases "fold driver_step (calls_of (setup_buffers e s)) ([], [])")
  from fold_setup_buffers [of e s "([], [])"] s1
  have H1: "H1 = []"
    and B1: "set B1 \<subseteq> {p. (memAlloc_w e = Some p \<and> err (bufRegister_w e) = 0)
                             \<or> (memAlloc_r e = Some p \<and> err (bufRegister_r e) = 0)}"
    by auto
  have B: "B = B1"
    using BH s1
    by (auto simp: fold_demo_body open_file_default_def fold_open_file split: sum.splits)
  have Hs: "set H \<subseteq> {x. x \<noteq> 0 \<and> cf_handle ?s = Some x}"
    using BH s1 H1 h
    by (auto simp: fold_demo_body open_file_default_def fold_open_file cf_handle_demo_body
        split: sum.splits if_splits)
  have Bs: "set B \<subseteq> {p. p \<noteq> 0 \<and> (dptr_w ?s = Some p \<or> dptr_r ?s = Some p)}"
    using B B1 w r by (auto simp: sess_demo_body_fields)
  have "fold driver_step (calls_of (cleanup ?s)) (B, H) = ([], [])"
    using Bs Hs by (rule cleanup_empties_table)
  then show ?thesis
    by (simp add: registered_after_def calls_of_run_demo BH)
qed

lemma distinct_cleanup:
  "truthy (dptr_w s) \<longrightarrow> dptr_w s \<noteq> dptr_r s \<Longrightarrow> distinct (calls_of (cleanup s))"
  by (auto simp: calls_of_cleanup set_if_truthy truthy_def if_truthy_def split: option.splits)

lemma cleanup_when_no_descriptor: "fd s = None \<Longrightarrow> cleanup_when b s = cleanup s"
  by (simp add: cleanup_when_def cleanup_def)

lemma cleanup_when_returns: "cleanup_when True s = cleanup s"
  by (simp add: cleanup_when_def cleanup_def split: option.splits)

lemma cleanup_when_raises:
  "fd s = Some f \<Longrightarrow>
     cleanup_when False s =
       (Inl OSError, s, if_truthy (cf_handle s) (\<lambda>h. [CuFileHandleDeregister h]) @ [OsClose f])"
  by (simp add: cleanup_when_def)

lemma cleanup_twice_no_descriptor:
  "fd s = None \<Longrightarrow>
     res_of (cleanup_twice s) = Inr ()
     \<and> calls_of (cleanup_twice s) = calls_of (cleanup s) @ calls_of (cleanup s)"
  by (simp add: cleanup_twice_def calls_of_and_then res_of_and_then res_of_cleanup
      sess_of_cleanup cleanup_when_no_descriptor)

lemma cleanup_twice_descriptor:
  "fd s = Some f \<Longrightarrow>
     res_of (cleanup_twice s) = Inl OSError
     \<and> calls_of (cleanup_twice s) =
         calls_of (cleanup s)
         @ if_truthy (cf_handle s) (\<lambda>h. [CuFileHandleDeregister h]) @ [OsClose f]"
  by (simp add: cleanup_twice_def calls_of_and_then res_of_and_then res_of_cleanup
      sess_of_cleanup cleanup_when_raises calls_of_lit res_of_lit)

text \<open>
  C3, as stated, fails. \<open>cleanup\<close> assigns no attribute, so a second invocation finds
  the same fields set and makes the same calls again: with the two device buffers held,
  each buffer is deregistered twice and freed twice.
\<close>

theorem cleanup_twice_releases_twice:
  "\<not> distinct (calls_of (cleanup_twice session_buffers_only))"
  using cleanup_twice_no_descriptor [of session_buffers_only]
  by (simp add: calls_of_cleanup session_buffers_only_def fresh_session_def if_truthy_def)

text \<open>
  C3, amended. One invocation of \<open>cleanup\<close>, in any state of the session and so also
  when only some of the resources were acquired, makes no release call twice (the two
  device pointers being different when both are held), and leaves nothing registered:
  whatever buffers and handle of the session were registered are deregistered by it, and
  after a whole run, at whichever step it failed, no buffer and no file handle is
  registered, given that a registration that succeeded was not one of a null pointer.
  Teardown is not idempotent: \<open>cleanup\<close> leaves every field as it was. A second
  invocation on a session that holds no descriptor repeats every call of the first. On
  a session that holds a descriptor it deregisters the file handle again and then
  raises \<open>OSError\<close> at \<^verbatim>\<open>os.close\<close>, the descriptor being closed already, and makes none of
  the releases after it.
\<close>

theorem cleanup_once_no_double_release:
  "((truthy (dptr_w s) \<longrightarrow> dptr_w s \<noteq> dptr_r s) \<longrightarrow> distinct (calls_of (cleanup s)))
   \<and> (set bs \<subseteq> {p. p \<noteq> 0 \<and> (dptr_w s = Some p \<or> dptr_r s = Some p)}
        \<and> set hs \<subseteq> {h. h \<noteq> 0 \<and> cf_handle s = Some h}
      \<longrightarrow> fold driver_step (calls_of (cleanup s)) (bs, hs) = ([], []))
   \<and> ((err (bufRegister_w e) = 0 \<longrightarrow> memAlloc_w e \<noteq> Some 0)
        \<and> (err (bufRegister_r e) = 0 \<longrightarrow> memAlloc_r e \<noteq> Some 0)
        \<and> (err (handleRegister_res e) = 0 \<longrightarrow> handleRegister_out e \<noteq> 0)
      \<longrightarrow> registered_after (calls_of (run_demo e c s path)) = ([], []))
   \<and> sess_of (cleanup s) = s
   \<and> (fd s = None \<longrightarrow>
        res_of (cleanup_twice s) = Inr ()
        \<and> calls_of (cleanup_twice s) = calls_of (cleanup s) @ calls_of (cleanup s))
   \<and> (\<forall>f. fd s = Some f \<longrightarrow>
        res_of (cleanup_twice s) = Inl OSError
        \<and> calls_of (cleanup_twice s) =
            calls_of (cleanup s)
            @ if_truthy (cf_handle s) (\<lambda>h. [CuFileHandleDeregister h]) @ [OsClose f])"
  using distinct_cleanup [of s] cleanup_empties_table [of bs s hs]
    run_demo_leaves_nothing_registered [of e c s path] sess_of_cleanup [of s]
    cleanup_twice_no_descriptor [of s] cleanup_twice_descriptor [of s]
  by blast

text \<open>
  The theorem at the session that holds the two device buffers, both registered, at
  the run in which the first buffer registration would fail, and at the session that
  holds every resource, where the second invocation stops at \<^verbatim>\<open>os.close\<close>.
\<close>

theorem cleanup_once_no_double_release_witness:
  "distinct (calls_of (cleanup session_buffers_only))
   \<and> fold driver_step (calls_of (cleanup session_buffers_only)) ([8192, 4096], []) = ([], [])
   \<and> registered_after
        (calls_of (run_demo env_register_fails linux_consts fresh_session ''test_gds.bin''))
       = ([], [])
   \<and> res_of (cleanup_twice session_all_held) = Inl OSError
   \<and> calls_of (cleanup_twice session_all_held) =
       [CuFileHandleDeregister 99, OsClose 3, CuFileBufDeregister 4096, CuMemFree 4096,
        CuFileBufDeregister 8192, CuMemFree 8192, CuMemFreeHost 12288, CuCtxDestroy 77,
        CuFileDriverClose, CuFileHandleDeregister 99, OsClose 3]"
  using cleanup_once_no_double_release [of session_buffers_only "[8192, 4096]" "[]"
      env_register_fails linux_consts "''test_gds.bin''"]
    cleanup_once_no_double_release [of fresh_session "[]" "[]"
      env_register_fails linux_consts "''test_gds.bin''"]
    cleanup_once_no_double_release [of session_all_held "[]" "[]"
      env_register_fails linux_consts "''test_gds.bin''"]
  by (simp add: session_buffers_only_def fresh_session_def truthy_def env_register_fails_def
      env_ok_def status_ok_def status_failed_def session_all_held_def calls_of_cleanup
      if_truthy_def)

section \<open>Device buffers at teardown\<close>

lemma free_follows_dereg_sound:
  "free_follows_dereg prev xs \<Longrightarrow> xs = us @ CuMemFree p # vs \<Longrightarrow>
     (us = [] \<and> prev = Some (CuFileBufDeregister p)) \<or> (\<exists>us'. us = us' @ [CuFileBufDeregister p])"
proof (induction xs arbitrary: us prev)
  case Nil
  then show ?case by simp
next
  case (Cons x xs)
  show ?case
  proof (cases us)
    case Nil
    with Cons.prems show ?thesis by simp
  next
    case (Cons u us1)
    with Cons.prems have x: "x = u" and xs: "xs = us1 @ CuMemFree p # vs"
      and f: "free_follows_dereg (Some x) xs" by simp_all
    from Cons.IH[OF f xs] Cons x show ?thesis by auto
  qed
qed

lemma free_follows_dereg_append:
  "free_follows_dereg prev (xs @ ys) =
     (free_follows_dereg prev xs
      \<and> free_follows_dereg (if xs = [] then prev else Some (last xs)) ys)"
  by (induction xs arbitrary: prev) auto

lemma free_follows_dereg_stage0:
  "list_all (\<lambda>ev. teardown_stage ev = 0) xs \<Longrightarrow> free_follows_dereg prev xs"
  by (induction xs arbitrary: prev) (auto split: event.splits)

lemma free_follows_dereg_buf:
  "free_follows_dereg prev (if_truthy v (\<lambda>p. [CuFileBufDeregister p, CuMemFree p]))"
  by (simp add: if_truthy_def split: option.splits)

lemma free_follows_dereg_cleanup: "free_follows_dereg prev (calls_of (cleanup s))"
  by (simp add: calls_of_cleanup free_follows_dereg_append free_follows_dereg_buf)
     (auto simp: if_truthy_def split: option.splits)

lemma free_follows_dereg_run_demo:
  "free_follows_dereg None (calls_of (run_demo e c s path))"
  by (simp add: calls_of_run_demo free_follows_dereg_append free_follows_dereg_cleanup
      free_follows_dereg_stage0[OF stage0_demo_body])

lemma free_directly_after_dereg:
  assumes "calls_of (run_demo e c s path) = us @ CuMemFree p # vs"
  shows "\<exists>us'. us = us' @ [CuFileBufDeregister p]"
  using free_follows_dereg_sound[OF free_follows_dereg_run_demo[of e c s path] assms] by simp

lemma free_directly_after_dereg_cleanup:
  assumes "calls_of (cleanup s) = us @ CuMemFree p # vs"
  shows "\<exists>us'. us = us' @ [CuFileBufDeregister p]"
  using free_follows_dereg_sound[OF free_follows_dereg_cleanup[of None s] assms] by simp

lemma dereg_in_cleanup:
  "CuFileBufDeregister p \<in> set (calls_of (cleanup s)) \<longleftrightarrow>
     p \<noteq> 0 \<and> (dptr_w s = Some p \<or> dptr_r s = Some p)"
  by (auto simp: calls_of_cleanup set_if_truthy split: option.splits)

lemma dereg_in_run_demo:
  "CuFileBufDeregister p \<in> set (calls_of (run_demo e c s path)) \<longleftrightarrow>
     p \<noteq> 0 \<and> (memAlloc_w e = Some p \<or> memAlloc_r e = Some p)"
  by (simp add: release_in_run_demo dereg_in_cleanup sess_demo_body_fields)

text \<open>
  C7, as stated, fails. When \<open>setup_buffers\<close> raises after the two allocations, at the
  fill that the cuda-python binding rejects or at a registration that returns a non-zero
  status, \<open>cleanup\<close> deregisters both buffers although neither was ever registered: the
  session keeps no registration status, only the pointers.
\<close>

theorem deregistered_without_registration:
  "\<not> dereg_only_registered ([], [])
     (calls_of (run_demo env_register_fails linux_consts fresh_session ''test_gds.bin''))"
  by (simp add: run_demo_def demo_body_def and_then_def setup_buffers_def
        open_file_default_def open_file_def write_buffer_def read_buffer_def verify_buffer_def
        cleanup_def calls_of_def check_cufile_def check_cuda_def env_register_fails_def
        env_ok_def fresh_session_def linux_consts_def status_ok_def status_failed_def
        default_flags_def default_mode_def if_truthy_def Let_def)

text \<open>
  C7, amended. A device buffer is deregistered at teardown exactly when the session
  holds its (non-null) pointer, whether or not its registration succeeded; in a run
  these are the pointers the two allocations returned. Its memory is freed only
  directly after the deregistration call for the same pointer.
\<close>

theorem buffer_deregistered_when_held_then_freed:
  "(CuFileBufDeregister p \<in> set (calls_of (cleanup s)) \<longleftrightarrow>
      p \<noteq> 0 \<and> (dptr_w s = Some p \<or> dptr_r s = Some p))
   \<and> (CuFileBufDeregister p \<in> set (calls_of (run_demo e c s path)) \<longleftrightarrow>
      p \<noteq> 0 \<and> (memAlloc_w e = Some p \<or> memAlloc_r e = Some p))
   \<and> (\<forall>us vs. calls_of (cleanup s) = us @ CuMemFree p # vs \<longrightarrow>
         (\<exists>us'. us = us' @ [CuFileBufDeregister p]))
   \<and> (\<forall>us vs. calls_of (run_demo e c s path) = us @ CuMemFree p # vs \<longrightarrow>
         (\<exists>us'. us = us' @ [CuFileBufDeregister p]))"
  using dereg_in_cleanup [of p s] dereg_in_run_demo [of p e c s path]
    free_directly_after_dereg_cleanup [of s _ p] free_directly_after_dereg [of e c s path _ p]
  by blast

text \<open>A run in which no registration of the write buffer succeeds: the buffer is
  deregistered all the same.\<close>

theorem buffer_deregistered_when_held_then_freed_witness:
  "err (bufRegister_w env_register_fails) \<noteq> 0
   \<and> CuFileBufDeregister 4096
       \<in> set (calls_of (run_demo env_register_fails linux_consts fresh_session ''test_gds.bin''))"
  using buffer_deregistered_when_held_then_freed
    [of 4096 fresh_session env_register_fails linux_consts "''test_gds.bin''"]
  by (simp add: env_register_fails_def env_ok_def status_failed_def)

section \<open>The execution context\<close>

lemma init_ctx:
  "PYGDS_init e bs pb = (Inr s, t) \<Longrightarrow>
     ctx s = None \<and> CuCtxCreate 0 (cuDeviceGet_res e) \<in> set t"
  by (auto simp: PYGDS_init_def and_then_def initialize_cuda_def initialize_cufile_def Let_def
      check_cuda_def check_cufile_def split: sum.splits prod.splits if_splits)

lemma no_destroy_without_ctx:
  "ctx s = None \<Longrightarrow> CuCtxDestroy k \<notin> set (calls_of (cleanup s))
     \<and> CuCtxDestroy k \<notin> set (calls_of (run_demo e c s path))"
  by (auto simp: release_in_run_demo calls_of_cleanup set_if_truthy sess_demo_body_fields
      split: option.splits)

lemma no_destroy_in_init: "CuCtxDestroy k \<notin> set (snd (PYGDS_init e bs pb))"
  by (auto simp: PYGDS_init_def and_then_def initialize_cuda_def initialize_cufile_def Let_def
      check_cuda_def check_cufile_def split: sum.splits prod.splits if_splits)

lemma no_destroy_in_main: "CuCtxDestroy k \<notin> set (snd (main e c))"
proof (cases "PYGDS_default e")
  case (Pair r t)
  have t: "CuCtxDestroy k \<notin> set t"
    using no_destroy_in_init [of k e "4 * 1024" "0xAB"] Pair by (simp add: PYGDS_default_def)
  show ?thesis
  proof (cases r)
    case (Inl ex)
    with Pair t show ?thesis by (simp add: main_def)
  next
    case (Inr gds)
    with Pair have "PYGDS_init e (4 * 1024) 0xAB = (Inr gds, t)"
      by (simp add: PYGDS_default_def)
    from init_ctx[OF this] have "ctx gds = None" by simp
    from no_destroy_without_ctx[OF this, of k e c "''test_gds.bin''"]
    have "CuCtxDestroy k \<notin> set (calls_of (run_demo e c gds ''test_gds.bin''))" by simp
    with Pair Inr t show ?thesis
      by (auto simp: main_def calls_of_def split: prod.splits)
  qed
qed

text \<open>
  C4 is what the code sets out to do and does not do. The constructor creates the
  context and stores it in \<^verbatim>\<open>self.ctx\<close>, and afterwards assigns \<^verbatim>\<open>None\<close> to the same
  attribute. Every session the constructor returns therefore has no context recorded,
  the guard \<^verbatim>\<open>if self.ctx\<close> of \<open>cleanup\<close> is false, and neither \<open>cleanup\<close> nor a whole
  run nor the script as a whole ever destroys a context: the context created at startup
  is destroyed zero times.
\<close>

theorem constructed_session_never_destroys_context:
  "PYGDS_init e bs pb = (Inr s, t) \<Longrightarrow>
     CuCtxCreate 0 (cuDeviceGet_res e) \<in> set t
     \<and> ctx s = None
     \<and> CuCtxDestroy k \<notin> set (calls_of (cleanup s))
     \<and> CuCtxDestroy k \<notin> set (calls_of (run_demo e' c s path))
     \<and> CuCtxDestroy k \<notin> set (snd (main e c))"
  using init_ctx [of e bs pb s t] no_destroy_without_ctx [of s k e' c path]
    no_destroy_in_main [of k e c]
  by blast

text \<open>The constructor with its default arguments, every call succeeding, and the run
  that follows.\<close>

theorem constructed_session_never_destroys_context_witness:
  "PYGDS_default env_ok =
     (Inr \<lparr>buffer_size = 4096, pattern_byte = 0xAB, device = None, ctx = None,
           dptr_w = None, dptr_r = None, hptr = None, cf_handle = None, fd = None\<rparr>,
      [CuInit 0, CuDeviceGet 0, CuCtxCreate 0 (Some 0), CDLL ''libcufile.so'',
       CuFileDriverOpen status_ok])
   \<and> CuCtxDestroy 77 \<notin> set (calls_of (run_demo env_ok linux_consts
        \<lparr>buffer_size = 4096, pattern_byte = 0xAB, device = None, ctx = None,
           dptr_w = None, dptr_r = None, hptr = None, cf_handle = None, fd = None\<rparr>
        ''test_gds.bin''))
   \<and> CuCtxDestroy 77 \<notin> set (snd (main env_ok linux_consts))"
proof -
  have i: "PYGDS_init env_ok 4096 0xAB =
     (Inr \<lparr>buffer_size = 4096, pattern_byte = 0xAB, device = None, ctx = None,
           dptr_w = None, dptr_r = None, hptr = None, cf_handle = None, fd = None\<rparr>,
      [CuInit 0, CuDeviceGet 0, CuCtxCreate 0 (Some 0), CDLL ''libcufile.so'',
       CuFileDriverOpen status_ok])"
    by (simp add: PYGDS_init_def and_then_def initialize_cuda_def initialize_cufile_def
        Let_def check_cuda_def check_cufile_def env_ok_def status_ok_def)
  from constructed_session_never_destroys_context
    [OF i, of 77 env_ok linux_consts "''test_gds.bin''"] i
  show ?thesis by (simp add: PYGDS_default_def)
qed

section \<open>Verification\<close>

lemma res_of_verify_buffer:
  "res_of (verify_buffer e s) =
     (if memcpy_res e \<noteq> 0 then Inl (CudaCheckFailed ''cuMemcpyDtoH'' (memcpy_res e))
      else case memAllocHost_res e of
             None \<Rightarrow> Inl TypeError
           | Some h \<Rightarrow>
               if list_ex (\<lambda>b. uint b \<noteq> pattern_byte s) (host_buf e h (buffer_size s))
               then Inl VerificationFailed else Inr True)"
  by (simp add: verify_buffer_def res_of_def Let_def check_cuda_def
      split: option.splits sum.splits)

lemma host_buf_ex:
  "list_ex (\<lambda>b. uint b \<noteq> pb) (host_buf e h sz)
     \<longleftrightarrow> (\<exists>i. i < sz \<and> uint (host_mem e (h + i)) \<noteq> pb)"
  apply (auto simp: host_buf_def list_ex_iff)
  subgoal for x by (rule exI[of _ "x - h"]) auto
  done

text \<open>
  C5. \<open>verify_buffer\<close> returns \<open>True\<close> exactly when the copy to the host was staged (the
  copy returned status zero into an allocated host buffer) and every byte of the host
  buffer equals the pattern. Whenever the copy was staged and at least one byte differs,
  a single corrupted byte included, it raises the verification error. It never returns
  \<open>False\<close>.
\<close>

theorem verify_passes_iff_all_bytes_match:
  "(res_of (verify_buffer e s) = Inr True \<longleftrightarrow>
      memcpy_res e = 0 \<and> (\<exists>h. memAllocHost_res e = Some h \<and>
         (\<forall>i. i < buffer_size s \<longrightarrow> uint (host_mem e (h + i)) = pattern_byte s)))
   \<and> (\<forall>h i. memcpy_res e = 0 \<and> memAllocHost_res e = Some h \<and> i < buffer_size s
         \<and> uint (host_mem e (h + i)) \<noteq> pattern_byte s \<longrightarrow>
        res_of (verify_buffer e s) = Inl VerificationFailed)
   \<and> res_of (verify_buffer e s) \<noteq> Inr False"
  by (auto simp: res_of_verify_buffer host_buf_ex split: option.splits)

text \<open>A host buffer that holds the pattern throughout, and one with the byte at offset
  three cleared.\<close>

theorem verify_passes_iff_all_bytes_match_witness:
  "res_of (verify_buffer env_ok fresh_session) = Inr True
   \<and> res_of (verify_buffer env_corrupted fresh_session) = Inl VerificationFailed"
proof -
  have a: "res_of (verify_buffer env_ok fresh_session) = Inr True"
    using verify_passes_iff_all_bytes_match [of env_ok fresh_session]
    by (simp add: env_ok_def fresh_session_def)
  have "memcpy_res env_corrupted = 0 \<and> memAllocHost_res env_corrupted = Some 12288
      \<and> 3 < buffer_size fresh_session
      \<and> uint (host_mem env_corrupted (12288 + 3)) \<noteq> pattern_byte fresh_session"
    by (simp add: env_corrupted_def env_ok_def fresh_session_def)
  with verify_passes_iff_all_bytes_match [of env_corrupted fresh_session]
  have "res_of (verify_buffer env_corrupted fresh_session) = Inl VerificationFailed"
    by blast
  with a show ?thesis by simp
qed

section \<open>Opening the file\<close>

lemma default_flags_has:
  "has_flag (default_flags c) (O_DIRECT c) \<and> has_flag (default_flags c) (O_CREAT c)
   \<and> has_flag (default_flags c) (O_TRUNC c) \<and> has_flag (default_flags c) (O_RDWR c)"
  by (auto simp: has_flag_def default_flags_def bit_eq_iff bit_and_iff bit_or_iff)

lemma calls_of_open_file:
  "calls_of (open_file e s path fl md) =
     OsOpen path fl md #
       (case os_open_res e of None \<Rightarrow> []
        | Some f \<Rightarrow> [CuFileHandleRegister \<lparr>descr_type = 1, handle_fd = f\<rparr>
                       (handleRegister_out e) (handleRegister_res e)])"
  by (simp add: open_file_def calls_of_def Let_def split: option.splits sum.splits)

text \<open>
  C8. With its default flags, \<open>open_file\<close> first calls the OS open with a flag word that
  contains \<open>O_DIRECT\<close>, \<open>O_CREAT\<close>, \<open>O_TRUNC\<close> and \<open>O_RDWR\<close>, whatever values the
  platform gives the four constants.
\<close>

theorem open_file_default_requests_direct_io:
  "hd (calls_of (open_file_default e c s path)) = OsOpen path (default_flags c) default_mode
   \<and> calls_of (open_file_default e c s path) \<noteq> []
   \<and> has_flag (default_flags c) (O_DIRECT c)
   \<and> has_flag (default_flags c) (O_CREAT c)
   \<and> has_flag (default_flags c) (O_TRUNC c)
   \<and> has_flag (default_flags c) (O_RDWR c)"
  using default_flags_has [of c] by (simp add: open_file_default_def calls_of_open_file)

text \<open>On Linux the flag word is 16962 and the mode is 420 (octal 644).\<close>

theorem open_file_default_requests_direct_io_witness:
  "hd (calls_of (open_file_default env_ok linux_consts fresh_session ''test_gds.bin''))
     = OsOpen ''test_gds.bin'' 16962 420
   \<and> has_flag 16962 16384 \<and> has_flag 16962 64 \<and> has_flag 16962 512 \<and> has_flag 16962 2"
  using open_file_default_requests_direct_io [of env_ok linux_consts fresh_session "''test_gds.bin''"]
  by (simp add: default_flags_def linux_consts_def default_mode_def)

section \<open>Frame of the transfers\<close>

text \<open>
  C9. \<open>write_buffer\<close> and \<open>read_buffer\<close> leave the session as they found it, for every
  session, offsets and answer of the driver, whether they return a result or raise:
  every field of the session after the call equals the field before.
\<close>

theorem transfers_leave_session_unchanged:
  "sess_of (write_buffer e s fo dof) = s \<and> sess_of (read_buffer e s fo dof) = s"
  by (simp add: sess_of_write_buffer sess_of_read_buffer)

text \<open>A write that raises the size error, and a read, on the session that holds every
  resource.\<close>

theorem transfers_leave_session_unchanged_witness:
  "res_of (write_buffer env_short_write session_all_held 0 0) = Inl (WriteReturned 4)
   \<and> sess_of (write_buffer env_short_write session_all_held 0 0) = session_all_held
   \<and> sess_of (read_buffer env_ok session_all_held 0 0) = session_all_held"
  using transfers_leave_session_unchanged [of env_short_write session_all_held 0 0]
    transfers_leave_session_unchanged [of env_ok session_all_held 0 0]
  by (simp add: res_of_write_buffer session_all_held_def env_short_write_def env_ok_def)

section \<open>The descriptor when handle registration fails\<close>

lemma close_in_cleanup: "OsClose f \<in> set (calls_of (cleanup s)) \<longleftrightarrow> fd s = Some f"
  by (auto simp: calls_of_cleanup set_if_truthy split: option.splits)

lemma close_in_run_demo:
  "OsClose f \<in> set (calls_of (run_demo e c s path))
     \<longleftrightarrow> fd (sess_of (run_demo e c s path)) = Some f"
  by (simp add: sess_of_run_demo release_in_run_demo close_in_cleanup)

text \<open>
  C10. When the OS open succeeded and the registration of the file handle returns a
  non-zero status, \<open>open_file\<close> raises with the descriptor already stored in the session;
  the descriptor handed to the registration is that same descriptor. Teardown of the
  session \<open>open_file\<close> left closes that descriptor, whatever the registration returned,
  and a run closes exactly the descriptor the session holds at its end.
\<close>

theorem descriptor_kept_and_closed_when_registration_fails:
  "(os_open_res e = Some f \<and> err (handleRegister_res e) \<noteq> 0 \<longrightarrow>
      res_of (open_file e s path fl md)
        = Inl (CuFileCheckFailed ''cuFileHandleRegister''
                 (err (handleRegister_res e)) (cu_err (handleRegister_res e)))
      \<and> fd (sess_of (open_file e s path fl md)) = Some f
      \<and> calls_of (open_file e s path fl md)
          = [OsOpen path fl md,
             CuFileHandleRegister \<lparr>descr_type = 1, handle_fd = f\<rparr>
               (handleRegister_out e) (handleRegister_res e)])
   \<and> (os_open_res e = Some f \<longrightarrow>
        fd (sess_of (open_file e s path fl md)) = Some f
        \<and> OsClose f \<in> set (calls_of (cleanup (sess_of (open_file e s path fl md)))))
   \<and> (OsClose f \<in> set (calls_of (run_demo e c s path))
        \<longleftrightarrow> fd (sess_of (run_demo e c s path)) = Some f)"
  using close_in_run_demo [of f e c s path]
  by (auto simp: res_of_open_file sess_of_open_file calls_of_open_file check_cufile_def
      close_in_cleanup)

text \<open>
  The handle registration returns status five: \<open>open_file\<close> raises, the session holds
  descriptor three, and \<open>cleanup\<close> of that session closes it.
\<close>

theorem descriptor_kept_and_closed_when_registration_fails_witness:
  "res_of (open_file env_handle_register_fails fresh_session ''test_gds.bin'' 16962 420)
     = Inl (CuFileCheckFailed ''cuFileHandleRegister'' 5 0)
   \<and> fd (sess_of (open_file env_handle_register_fails fresh_session ''test_gds.bin'' 16962 420))
       = Some 3
   \<and> OsClose 3 \<in> set (calls_of (cleanup
        (sess_of (open_file env_handle_register_fails fresh_session ''test_gds.bin'' 16962 420))))"
proof -
  have o: "os_open_res env_handle_register_fails = Some 3"
    and h: "err (handleRegister_res env_handle_register_fails) = 5"
      "cu_err (handleRegister_res env_handle_register_fails) = 0"
    by (simp_all add: env_handle_register_fails_def env_ok_def status_failed_def)
  from descriptor_kept_and_closed_when_registration_fails
    [where e = env_handle_register_fails and f = 3 and s = fresh_session
      and path = "''test_gds.bin''" and fl = 16962 and md = 420 and c = linux_consts]
    o h
  show ?thesis by simp
qed

end
